theory Spec2Isabelle
  imports Complex_Main "HOL-Library.Word"
begin

section \<open>Data model (types.ts and the browser objects Board.tsx works on)\<close>

text \<open>
  \<^verbatim>\<open>ToolType\<close>, \<^verbatim>\<open>Point\<close> and \<^verbatim>\<open>DrawingSettings\<close> of types.ts. JavaScript numbers are
  idealised as reals; none of the properties below depends on rounding.
\<close>

datatype ToolType = Pen | Line | Dashed | Circle | Ellipse | Rect | Triangle | Axis | Eraser | Text

record Point =
  pt_x :: real
  pt_y :: real

record DrawingSettings =
  color :: string
  width :: real
  opacity :: real

text \<open>
  An \<^verbatim>\<open>ImageData\<close>: its dimensions and its pixels in row-major order, one 32-bit RGBA value
  per pixel. Transparent black is \<open>0\<close>. The copy made by \<^verbatim>\<open>getImageData\<close> and written back
  by \<^verbatim>\<open>putImageData\<close> is taken to be exact.
\<close>

type_synonym pixel = "32 word"

record ImageData =
  iwidth :: nat
  iheight :: nat
  idata :: "pixel list"

text \<open>The current default path of a 2D context, as the list of calls that built it.\<close>

datatype path_cmd =
    MoveTo real real
  | LineTo real real
  | Arc real real real real real
  | EllipseTo real real real real real real real
  | ClosePath

text \<open>
  The drawing state of a \<^verbatim>\<open>CanvasRenderingContext2D\<close>: the attributes Board.tsx assigns,
  and \<^verbatim>\<open>globalAlpha\<close>, which it never assigns.
\<close>

record Context2D =
  strokeStyle :: string
  lineWidth :: real
  lineCap :: string
  lineJoin :: string
  lineDash :: "real list"
  globalCompositeOperation :: string
  globalAlpha :: real
  font :: string
  fillStyle :: string
  textBaseline :: string
  path :: "path_cmd list"

record Canvas =
  cwidth :: nat
  cheight :: nat
  bitmap :: "pixel list"
  ctx :: Context2D

text \<open>
  What a painting call hands to the browser's rasteriser: the geometry, and the drawing
  state that the Canvas standard lets that call depend on, as far as it is modelled here.
  The attributes left out (transform, clip, shadows, miter limit, dash offset, text
  alignment) are never assigned by Board.tsx and keep their defaults.
\<close>

record StrokeState =
  ss_style :: string
  ss_width :: real
  ss_cap :: string
  ss_join :: string
  ss_dash :: "real list"
  ss_composite :: string
  ss_alpha :: real

record TextState =
  ts_font :: string
  ts_fill :: string
  ts_baseline :: string
  ts_composite :: string
  ts_alpha :: real

text \<open>
  The text typed into the input is a JavaScript string: a sequence of UTF-16 code units.
  The other strings of the model (colours, fonts, modes) are constants written in ASCII.
\<close>

type_synonym jsstring = "16 word list"

datatype paint =
    Stroke "path_cmd list" StrokeState
  | StrokeRect real real real real StrokeState
  | FillText jsstring real real TextState

text \<open>
  The rasteriser itself is the browser's. It is a parameter of the model: given the paint
  call, the dimensions and the old pixels, it tells the new value of the pixel at an index.
\<close>

type_synonym rasteriser = "paint \<Rightarrow> nat \<Rightarrow> nat \<Rightarrow> pixel list \<Rightarrow> nat \<Rightarrow> pixel"

datatype error = IndexSizeError

text \<open>The state of the Board component: its props, its \<^verbatim>\<open>useState\<close> cells and its canvas.\<close>

record Board =
  tool :: ToolType
  settings :: DrawingSettings
  isDrawing :: bool
  startPos :: "Point option"
  snapshot :: "ImageData option"
  history :: "ImageData list"
  typingPos :: "Point option"
  canvas :: "Canvas option"

section \<open>The canvas API used by Board.tsx\<close>

definition default_ctx :: Context2D where
  "default_ctx =
     \<lparr>strokeStyle = ''#000000'', lineWidth = 1, lineCap = ''butt'', lineJoin = ''miter'',
      lineDash = [], globalCompositeOperation = ''source-over'', globalAlpha = 1,
      font = ''10px sans-serif'', fillStyle = ''#000000'', textBaseline = ''alphabetic'',
      path = []\<rparr>"

definition new_canvas :: "nat \<Rightarrow> nat \<Rightarrow> Canvas" where
  "new_canvas w h = \<lparr>cwidth = w, cheight = h, bitmap = replicate (w * h) 0, ctx = default_ctx\<rparr>"

text \<open>
  \<^verbatim>\<open>ctx.getImageData(0, 0, canvas.width, canvas.height)\<close>: throws IndexSizeError when either
  dimension is zero.
\<close>

definition getImageData :: "Canvas \<Rightarrow> error + ImageData" where
  "getImageData c =
     (if cwidth c = 0 \<or> cheight c = 0 then Inl IndexSizeError
      else Inr \<lparr>iwidth = cwidth c, iheight = cheight c, idata = bitmap c\<rparr>)"

text \<open>
  \<^verbatim>\<open>ctx.putImageData(img, 0, 0)\<close>: every canvas pixel that lies inside the image takes the
  image's value, every other pixel keeps its own. The drawing state plays no part.
\<close>

definition putImageData :: "ImageData \<Rightarrow> Canvas \<Rightarrow> Canvas" where
  "putImageData img c =
     c\<lparr>bitmap :=
         map (\<lambda>i. if i mod cwidth c < iwidth img \<and> i div cwidth c < iheight img
                  then idata img ! (i div cwidth c * iwidth img + i mod cwidth c)
                  else bitmap c ! i)
             [0..<cwidth c * cheight c]\<rparr>"

text \<open>\<^verbatim>\<open>ctx.clearRect(0, 0, canvas.width, canvas.height)\<close>: the whole bitmap turns transparent.\<close>

definition clearRect :: "Canvas \<Rightarrow> Canvas" where
  "clearRect c = c\<lparr>bitmap := replicate (cwidth c * cheight c) 0\<rparr>"

text \<open>
  Assigning \<^verbatim>\<open>canvas.width\<close> or \<^verbatim>\<open>canvas.height\<close> replaces the bitmap by a transparent one of
  the new size and resets the context to its default state.
\<close>

definition set_width :: "nat \<Rightarrow> Canvas \<Rightarrow> Canvas" where
  "set_width w c = new_canvas w (cheight c)"

definition set_height :: "nat \<Rightarrow> Canvas \<Rightarrow> Canvas" where
  "set_height h c = new_canvas (cwidth c) h"

definition beginPath :: "Canvas \<Rightarrow> Canvas" where
  "beginPath c = c\<lparr>ctx := (ctx c)\<lparr>path := []\<rparr>\<rparr>"

definition add_path :: "path_cmd \<Rightarrow> Canvas \<Rightarrow> Canvas" where
  "add_path k c = c\<lparr>ctx := (ctx c)\<lparr>path := path (ctx c) @ [k]\<rparr>\<rparr>"

definition moveTo :: "real \<Rightarrow> real \<Rightarrow> Canvas \<Rightarrow> Canvas" where
  "moveTo a b = add_path (MoveTo a b)"

definition lineTo :: "real \<Rightarrow> real \<Rightarrow> Canvas \<Rightarrow> Canvas" where
  "lineTo a b = add_path (LineTo a b)"

definition closePath :: "Canvas \<Rightarrow> Canvas" where
  "closePath = add_path ClosePath"

definition arc :: "real \<Rightarrow> real \<Rightarrow> real \<Rightarrow> real \<Rightarrow> real \<Rightarrow> Canvas \<Rightarrow> Canvas" where
  "arc a b r a0 a1 = add_path (Arc a b r a0 a1)"

definition ellipse :: "real \<Rightarrow> real \<Rightarrow> real \<Rightarrow> real \<Rightarrow> real \<Rightarrow> real \<Rightarrow> real \<Rightarrow> Canvas \<Rightarrow> Canvas" where
  "ellipse a b rx ry rot a0 a1 = add_path (EllipseTo a b rx ry rot a0 a1)"

text \<open>
  The setters of the drawing state. A style setter ignores a string that is not a CSS
  colour; the colours Toolbar.tsx offers all are, so the assignment is modelled as taking
  effect. The other strings assigned are constants of Board.tsx that the setters accept.
\<close>

definition set_strokeStyle :: "string \<Rightarrow> Canvas \<Rightarrow> Canvas" where
  "set_strokeStyle v c = c\<lparr>ctx := (ctx c)\<lparr>strokeStyle := v\<rparr>\<rparr>"

text \<open>A line width that is not positive is ignored by the setter.\<close>

definition set_lineWidth :: "real \<Rightarrow> Canvas \<Rightarrow> Canvas" where
  "set_lineWidth v c = (if 0 < v then c\<lparr>ctx := (ctx c)\<lparr>lineWidth := v\<rparr>\<rparr> else c)"

definition set_lineCap :: "string \<Rightarrow> Canvas \<Rightarrow> Canvas" where
  "set_lineCap v c = c\<lparr>ctx := (ctx c)\<lparr>lineCap := v\<rparr>\<rparr>"

definition set_lineJoin :: "string \<Rightarrow> Canvas \<Rightarrow> Canvas" where
  "set_lineJoin v c = c\<lparr>ctx := (ctx c)\<lparr>lineJoin := v\<rparr>\<rparr>"

text \<open>
  \<^verbatim>\<open>setLineDash\<close> ignores a list with a negative entry and doubles a list of odd length.
\<close>

definition setLineDash :: "real list \<Rightarrow> Canvas \<Rightarrow> Canvas" where
  "setLineDash segs c =
     (if list_ex (\<lambda>v. v < 0) segs then c
      else c\<lparr>ctx := (ctx c)\<lparr>lineDash := (if odd (length segs) then segs @ segs else segs)\<rparr>\<rparr>)"

definition set_globalCompositeOperation :: "string \<Rightarrow> Canvas \<Rightarrow> Canvas" where
  "set_globalCompositeOperation v c = c\<lparr>ctx := (ctx c)\<lparr>globalCompositeOperation := v\<rparr>\<rparr>"

definition set_font :: "string \<Rightarrow> Canvas \<Rightarrow> Canvas" where
  "set_font v c = c\<lparr>ctx := (ctx c)\<lparr>font := v\<rparr>\<rparr>"

definition set_fillStyle :: "string \<Rightarrow> Canvas \<Rightarrow> Canvas" where
  "set_fillStyle v c = c\<lparr>ctx := (ctx c)\<lparr>fillStyle := v\<rparr>\<rparr>"

definition set_textBaseline :: "string \<Rightarrow> Canvas \<Rightarrow> Canvas" where
  "set_textBaseline v c = c\<lparr>ctx := (ctx c)\<lparr>textBaseline := v\<rparr>\<rparr>"

text \<open>The state a stroke and a text fill are painted with.\<close>

definition stroke_state :: "Context2D \<Rightarrow> StrokeState" where
  "stroke_state x =
     \<lparr>ss_style = strokeStyle x, ss_width = lineWidth x, ss_cap = lineCap x,
      ss_join = lineJoin x, ss_dash = lineDash x,
      ss_composite = globalCompositeOperation x, ss_alpha = globalAlpha x\<rparr>"

definition text_state :: "Context2D \<Rightarrow> TextState" where
  "text_state x =
     \<lparr>ts_font = font x, ts_fill = fillStyle x, ts_baseline = textBaseline x,
      ts_composite = globalCompositeOperation x, ts_alpha = globalAlpha x\<rparr>"

text \<open>A painting call: the rasteriser computes every pixel of the bitmap anew.\<close>

definition rasterise :: "rasteriser \<Rightarrow> paint \<Rightarrow> Canvas \<Rightarrow> Canvas" where
  "rasterise R k c =
     c\<lparr>bitmap := map (R k (cwidth c) (cheight c) (bitmap c)) [0..<cwidth c * cheight c]\<rparr>"

definition stroke :: "rasteriser \<Rightarrow> Canvas \<Rightarrow> Canvas" where
  "stroke R c = rasterise R (Stroke (path (ctx c)) (stroke_state (ctx c))) c"

definition strokeRect :: "rasteriser \<Rightarrow> real \<Rightarrow> real \<Rightarrow> real \<Rightarrow> real \<Rightarrow> Canvas \<Rightarrow> Canvas" where
  "strokeRect R a b w h c = rasterise R (StrokeRect a b w h (stroke_state (ctx c))) c"

definition fillText :: "rasteriser \<Rightarrow> jsstring \<Rightarrow> real \<Rightarrow> real \<Rightarrow> Canvas \<Rightarrow> Canvas" where
  "fillText R t a b c = rasterise R (FillText t a b (text_state (ctx c))) c"

section \<open>The history stack\<close>

text \<open>\<^verbatim>\<open>prev.slice(-n)\<close>: the last \<open>n\<close> elements, all of them when there are fewer.\<close>

definition slice_last :: "nat \<Rightarrow> 'a list \<Rightarrow> 'a list" where
  "slice_last n xs = drop (length xs - n) xs"

text \<open>\<^verbatim>\<open>setHistory(prev => [...prev.slice(-19), currentData])\<close>\<close>

definition push_history :: "ImageData list \<Rightarrow> ImageData \<Rightarrow> ImageData list" where
  "push_history prev currentData = slice_last 19 prev @ [currentData]"

text \<open>\<^verbatim>\<open>setHistory(prev => prev.slice(0, -1))\<close>\<close>

definition pop_history :: "ImageData list \<Rightarrow> ImageData list" where
  "pop_history prev = take (length prev - 1) prev"

section \<open>The handlers of Board.tsx\<close>

text \<open>
  Each handler is one transition on the state: React runs a handler to its end and renders
  again before the next event, so a handler reads the state the last one left. The model
  is of a mounted component. \<^verbatim>\<open>canvasRef.current\<close> is kept as an option all the same, so
  that the null guards of the source are branches here; \<^verbatim>\<open>getContext('2d')\<close> returns the
  context whenever there is a canvas.
\<close>

text \<open>\<^verbatim>\<open>Math.atan2(dy, dx)\<close> over the reals.\<close>

definition atan2 :: "real \<Rightarrow> real \<Rightarrow> real" where
  "atan2 dy dx =
     (if 0 < dx then arctan (dy / dx)
      else if dx < 0 then (if 0 \<le> dy then arctan (dy / dx) + pi else arctan (dy / dx) - pi)
      else if 0 < dy then pi / 2
      else if dy < 0 then - (pi / 2)
      else 0)"

text \<open>
  \<^verbatim>\<open>startDrawing\<close> (pointer down). With the text tool it only schedules
  \<^verbatim>\<open>setTypingPos(pos)\<close>; the timer is taken to have fired when the handler returns.
\<close>

definition startDrawing :: "Point \<Rightarrow> Board \<Rightarrow> error + Board" where
  "startDrawing pos s =
     (if tool s = Text then Inr (s\<lparr>typingPos := Some pos\<rparr>)
      else case canvas s of
        None \<Rightarrow> Inr s
      | Some c \<Rightarrow>
          (case getImageData c of
             Inl e \<Rightarrow> Inl e
           | Inr currentData \<Rightarrow>
               (let c1 = beginPath c;
                    c2 = moveTo (pt_x pos) (pt_y pos) c1;
                    c3 = set_strokeStyle (color (settings s)) c2;
                    c4 = set_lineWidth (width (settings s)) c3;
                    c5 = set_lineCap ''round'' c4;
                    c6 = set_lineJoin ''round'' c5;
                    c7 = setLineDash [] c6;
                    c8 = (if tool s = Eraser
                          then set_globalCompositeOperation ''destination-out'' c7
                          else set_globalCompositeOperation ''source-over'' c7);
                    c9 = (if tool s = Dashed
                          then setLineDash [width (settings s) * 3, width (settings s) * 2] c8
                          else c8)
                in Inr (s\<lparr>history := push_history (history s) currentData,
                          isDrawing := True,
                          startPos := Some pos,
                          snapshot := Some currentData,
                          canvas := Some c9\<rparr>))))"

definition drawArrowHead :: "rasteriser \<Rightarrow> Point \<Rightarrow> Point \<Rightarrow> Canvas \<Rightarrow> Canvas" where
  "drawArrowHead R from_pt to_pt c =
     (let headLength = 15;
          dx = pt_x to_pt - pt_x from_pt;
          dy = pt_y to_pt - pt_y from_pt;
          angle = atan2 dy dx;
          c1 = beginPath c;
          c2 = moveTo (pt_x to_pt) (pt_y to_pt) c1;
          c3 = lineTo (pt_x to_pt - headLength * cos (angle - pi / 6))
                      (pt_y to_pt - headLength * sin (angle - pi / 6)) c2;
          c4 = moveTo (pt_x to_pt) (pt_y to_pt) c3;
          c5 = lineTo (pt_x to_pt - headLength * cos (angle + pi / 6))
                      (pt_y to_pt - headLength * sin (angle + pi / 6)) c4
      in stroke R c5)"

text \<open>
  The branch of \<^verbatim>\<open>draw\<close> for the tools that preview, after the snapshot has been put
  back (lines 214 to 277): reset the styles, draw the outline from the anchor \<open>sp\<close> to the
  current point \<open>cp\<close>.
\<close>

definition shape_outline ::
  "rasteriser \<Rightarrow> ToolType \<Rightarrow> DrawingSettings \<Rightarrow> Point \<Rightarrow> Point \<Rightarrow> Canvas \<Rightarrow> Canvas" where
  "shape_outline R t st sp cp c =
     (let c2 = beginPath c;
          c3 = set_globalCompositeOperation ''source-over'' c2;
          c4 = set_strokeStyle (color st) c3;
          c5 = set_lineWidth (width st) c4;
          c6 = setLineDash [] c5;
          c7 = (if t = Dashed then setLineDash [width st * 3, width st * 2] c6 else c6)
      in if t = Line \<or> t = Dashed then
           stroke R (lineTo (pt_x cp) (pt_y cp) (moveTo (pt_x sp) (pt_y sp) c7))
         else if t = Circle then
           (let radius = sqrt ((pt_x cp - pt_x sp)\<^sup>2 + (pt_y cp - pt_y sp)\<^sup>2)
            in stroke R (arc (pt_x sp) (pt_y sp) radius 0 (2 * pi) c7))
         else if t = Rect then
           strokeRect R (pt_x sp) (pt_y sp) (pt_x cp - pt_x sp) (pt_y cp - pt_y sp) c7
         else if t = Ellipse then
           (let centerX = pt_x sp;
                centerY = pt_y sp;
                radiusX = \<bar>pt_x cp - pt_x sp\<bar>;
                radiusY = \<bar>pt_y cp - pt_y sp\<bar>
            in stroke R (ellipse centerX centerY radiusX radiusY 0 0 (2 * pi) c7))
         else if t = Triangle then
           (let topX = (pt_x sp + pt_x cp) / 2;
                topY = pt_y sp;
                botY = pt_y cp;
                leftX = pt_x sp;
                rightX = pt_x cp
            in stroke R (closePath (lineTo rightX botY (lineTo leftX botY (moveTo topX topY c7)))))
         else if t = Axis then
           (let centerX = (pt_x sp + pt_x cp) / 2;
                centerY = (pt_y sp + pt_y cp) / 2;
                d1 = stroke R (lineTo (pt_x cp) centerY (moveTo (pt_x sp) centerY c7));
                d2 = drawArrowHead R \<lparr>pt_x = pt_x sp, pt_y = centerY\<rparr>
                                     \<lparr>pt_x = pt_x cp, pt_y = centerY\<rparr> d1;
                d3 = beginPath d2;
                d4 = stroke R (lineTo centerX (pt_y sp) (moveTo centerX (pt_y cp) d3))
            in drawArrowHead R \<lparr>pt_x = centerX, pt_y = pt_y cp\<rparr>
                               \<lparr>pt_x = centerX, pt_y = pt_y sp\<rparr> d4)
         else c7)"

text \<open>\<^verbatim>\<open>draw\<close> (pointer move).\<close>

definition draw :: "rasteriser \<Rightarrow> Point \<Rightarrow> Board \<Rightarrow> Board" where
  "draw R currentPos s =
     (if \<not> isDrawing s then s
      else case startPos s of
        None \<Rightarrow> s
      | Some sp \<Rightarrow>
          (case canvas s of
             None \<Rightarrow> s
           | Some c \<Rightarrow>
               if tool s = Pen \<or> tool s = Eraser then
                 s\<lparr>canvas := Some (stroke R (lineTo (pt_x currentPos) (pt_y currentPos) c))\<rparr>
               else
                 (case snapshot s of
                    None \<Rightarrow> s
                  | Some snap \<Rightarrow>
                      s\<lparr>canvas :=
                          Some (shape_outline R (tool s) (settings s) sp currentPos
                                  (putImageData snap c))\<rparr>)))"

text \<open>\<^verbatim>\<open>stopDrawing\<close> (pointer up, pointer leave, touch end).\<close>

definition stopDrawing :: "Board \<Rightarrow> Board" where
  "stopDrawing s =
     (if isDrawing s
      then s\<lparr>canvas := map_option closePath (canvas s), isDrawing := False, snapshot := None\<rparr>
      else s)"

text \<open>
  \<^verbatim>\<open>text.trim()\<close> strips from both ends the code units that ECMAScript counts as white
  space or as line terminators: TAB, LF, VT, FF, CR, the space, the no-break space U+00A0,
  the other space separators of Unicode (U+1680, U+2000 to U+200A, U+202F, U+205F,
  U+3000), the line and paragraph separators U+2028 and U+2029, and U+FEFF.
\<close>

definition is_space :: "16 word \<Rightarrow> bool" where
  "is_space cu =
     (cu \<in> set [0x0009, 0x000A, 0x000B, 0x000C, 0x000D, 0x0020, 0x00A0, 0x1680,
                 0x2000, 0x2001, 0x2002, 0x2003, 0x2004, 0x2005, 0x2006, 0x2007, 0x2008,
                 0x2009, 0x200A, 0x2028, 0x2029, 0x202F, 0x205F, 0x3000, 0xFEFF])"

definition trim :: "jsstring \<Rightarrow> jsstring" where
  "trim t = rev (dropWhile is_space (rev (dropWhile is_space t)))"

text \<open>\<^verbatim>\<open>handleTextComplete\<close> (blur of the text input; Enter blurs it).\<close>

definition handleTextComplete :: "rasteriser \<Rightarrow> jsstring \<Rightarrow> Board \<Rightarrow> error + Board" where
  "handleTextComplete R txt s =
     (let s1 = s\<lparr>typingPos := None\<rparr>
      in if trim txt = [] then Inr s1
         else case typingPos s of
           None \<Rightarrow> Inr s1
         | Some tp \<Rightarrow>
             (case canvas s of
                None \<Rightarrow> Inr s1
              | Some c \<Rightarrow>
                  (case getImageData c of
                     Inl e \<Rightarrow> Inl e
                   | Inr currentData \<Rightarrow>
                       (let c1 = set_font ''bold 32px sans-serif'' c;
                            c2 = set_fillStyle (color (settings s)) c1;
                            c3 = set_textBaseline ''top'' c2;
                            c4 = set_globalCompositeOperation ''source-over'' c3;
                            c5 = fillText R txt (pt_x tp) (pt_y tp) c4
                        in Inr (s1\<lparr>history := push_history (history s) currentData,
                                   canvas := Some c5\<rparr>)))))"

text \<open>The effect on \<^verbatim>\<open>clearTrigger\<close> (lines 89 to 100).\<close>

definition handleClear :: "Board \<Rightarrow> error + Board" where
  "handleClear s =
     (case canvas s of
        None \<Rightarrow> Inr s
      | Some c \<Rightarrow>
          (case getImageData c of
             Inl e \<Rightarrow> Inl e
           | Inr currentData \<Rightarrow>
               Inr (s\<lparr>history := push_history (history s) currentData,
                      canvas := Some (clearRect c)\<rparr>)))"

text \<open>The effect on \<^verbatim>\<open>undoTrigger\<close> (lines 103 to 117).\<close>

definition handleUndo :: "Board \<Rightarrow> Board" where
  "handleUndo s =
     (if history s = [] then s
      else case canvas s of
        None \<Rightarrow> s
      | Some c \<Rightarrow>
          (let previousState = last (history s)
           in s\<lparr>canvas := Some (putImageData previousState c),
                history := pop_history (history s)\<rparr>))"

text \<open>
  The ResizeObserver callback (lines 61 to 81); \<open>w\<close> and \<open>h\<close> are the values the canvas
  attributes take from the container's bounding rectangle.
\<close>

definition handleResize :: "nat \<Rightarrow> nat \<Rightarrow> Board \<Rightarrow> Board" where
  "handleResize w h s =
     (case canvas s of
        None \<Rightarrow> s
      | Some c \<Rightarrow>
          (let content = (if 0 < cwidth c \<and> 0 < cheight c
                          then (case getImageData c of Inl e \<Rightarrow> None | Inr d \<Rightarrow> Some d)
                          else None);
               c1 = set_width w c;
               c2 = set_height h c1
           in case content of
                None \<Rightarrow> s\<lparr>canvas := Some c2\<rparr>
              | Some d \<Rightarrow> s\<lparr>canvas := Some (putImageData d c2)\<rparr>))"

text \<open>
  Mounting: the first render has the initial \<^verbatim>\<open>useState\<close> values and a canvas element of the
  default size 300 by 150; then every effect runs once. The clear effect runs in full. The
  undo effect reads the \<^verbatim>\<open>history\<close> of the first render, which is empty, and returns.
  The ResizeObserver reports the container's size later, as a resize of its own.
\<close>

definition initial :: "ToolType \<Rightarrow> DrawingSettings \<Rightarrow> Board" where
  "initial t st =
     \<lparr>tool = t, settings = st, isDrawing = False, startPos = None, snapshot = None,
      history = [], typingPos = None, canvas = Some (new_canvas 300 150)\<rparr>"

definition mount :: "ToolType \<Rightarrow> DrawingSettings \<Rightarrow> error + Board" where
  "mount t st = handleClear (initial t st)"

section \<open>Events\<close>

text \<open>
  What can happen to a mounted board: pointer and touch events on the canvas, the end of
  a text entry, a change of a trigger or of a prop by the application, a resize. A change
  of the tool runs the effect on \<^verbatim>\<open>tool\<close> (lines 45 to 47), which leaves text entry.
\<close>

datatype event =
    PointerDown Point
  | PointerMove Point
  | PointerUp
  | TextComplete jsstring
  | ClearTrigger
  | UndoTrigger
  | Resize nat nat
  | SetTool ToolType
  | SetSettings DrawingSettings

fun step :: "rasteriser \<Rightarrow> Board \<Rightarrow> event \<Rightarrow> error + Board" where
  "step R s (PointerDown p) = startDrawing p s"
| "step R s (PointerMove p) = Inr (draw R p s)"
| "step R s PointerUp = Inr (stopDrawing s)"
| "step R s (TextComplete txt) = handleTextComplete R txt s"
| "step R s ClearTrigger = handleClear s"
| "step R s UndoTrigger = Inr (handleUndo s)"
| "step R s (Resize w h) = Inr (handleResize w h s)"
| "step R s (SetTool t) = Inr (if t = tool s then s else s\<lparr>tool := t, typingPos := None\<rparr>)"
| "step R s (SetSettings st) = Inr (s\<lparr>settings := st\<rparr>)"

text \<open>A run stops at the first exception.\<close>

fun run :: "rasteriser \<Rightarrow> Board \<Rightarrow> event list \<Rightarrow> error + Board" where
  "run R s [] = Inr s"
| "run R s (e # es) = (case step R s e of Inl err \<Rightarrow> Inl err | Inr s' \<Rightarrow> run R s' es)"

section \<open>Notions of the specification\<close>

text \<open>A bitmap has one pixel for every position of the surface.\<close>

definition wf_canvas :: "Canvas \<Rightarrow> bool" where
  "wf_canvas c = (length (bitmap c) = cwidth c * cheight c)"

text \<open>The raster snapshot of a surface: the full-buffer copy of its pixels.\<close>

definition full_copy :: "Canvas \<Rightarrow> ImageData" where
  "full_copy c = \<lparr>iwidth = cwidth c, iheight = cheight c, idata = bitmap c\<rparr>"

text \<open>
  The committing user actions, in the words of the specification: a stroke or shape
  session begins (pointer down with a tool other than text), a text entry ends with text
  that is not blank, the board is cleared.
\<close>

fun committing :: "Board \<Rightarrow> event \<Rightarrow> bool" where
  "committing s (PointerDown p) = (tool s \<noteq> Text)"
| "committing s (TextComplete txt) = (\<not> list_all is_space txt \<and> typingPos s \<noteq> None)"
| "committing s ClearTrigger = True"
| "committing s (PointerMove p) = False"
| "committing s PointerUp = False"
| "committing s UndoTrigger = False"
| "committing s (Resize w h) = False"
| "committing s (SetTool t) = False"
| "committing s (SetSettings st) = False"

text \<open>The events of a session that only redraw: pointer moves, and the pointer's release.\<close>

fun redraw_only :: "event \<Rightarrow> bool" where
  "redraw_only (PointerMove p) = True"
| "redraw_only PointerUp = True"
| "redraw_only (PointerDown p) = False"
| "redraw_only (TextComplete txt) = False"
| "redraw_only ClearTrigger = False"
| "redraw_only UndoTrigger = False"
| "redraw_only (Resize w h) = False"
| "redraw_only (SetTool t) = False"
| "redraw_only (SetSettings st) = False"

text \<open>
  The snapshots that the committing actions of a run call for, oldest first: for each
  committing action, the copy of the surface as it was just before that action.
\<close>

fun commit_log :: "rasteriser \<Rightarrow> Board \<Rightarrow> event list \<Rightarrow> ImageData list" where
  "commit_log R s [] = []"
| "commit_log R s (e # es) =
     (case step R s e of
        Inl err \<Rightarrow> []
      | Inr s' \<Rightarrow>
          (if committing s e then map full_copy (case canvas s of None \<Rightarrow> [] | Some c \<Rightarrow> [c]) else [])
          @ commit_log R s' es)"

text \<open>The compositing mode the specification asks of a session with a given tool.\<close>

definition session_mode :: "ToolType \<Rightarrow> string" where
  "session_mode t = (if t = Eraser then ''destination-out'' else ''source-over'')"

text \<open>The compositing mode a paint call is made with.\<close>

fun paint_composite :: "paint \<Rightarrow> string" where
  "paint_composite (Stroke p st) = ss_composite st"
| "paint_composite (StrokeRect a b w h st) = ss_composite st"
| "paint_composite (FillText t a b ts) = ts_composite ts"

text \<open>
  A rasteriser cut down to one compositing mode: it paints as \<open>R\<close> does when the call is
  made with mode \<open>m\<close>, and leaves every pixel alone otherwise. A computation that gives the
  same result with \<open>R\<close> and with \<open>R\<close> cut down to \<open>m\<close> makes all its paint calls in
  mode \<open>m\<close>, as far as any rasteriser can tell.
\<close>

definition restrict_mode :: "string \<Rightarrow> rasteriser \<Rightarrow> rasteriser" where
  "restrict_mode m R k w h old i = (if paint_composite k = m then R k w h old i else old ! i)"

text \<open>
  A paint call made with a given colour, line width and alpha (a text fill has no line
  width), and a rasteriser cut down to the paint calls of some kind: it leaves every pixel
  alone on any other call.
\<close>

fun paint_with :: "string \<Rightarrow> real \<Rightarrow> real \<Rightarrow> paint \<Rightarrow> bool" where
  "paint_with col lw al (Stroke p st) = (ss_style st = col \<and> ss_width st = lw \<and> ss_alpha st = al)"
| "paint_with col lw al (StrokeRect a b w h st) =
     (ss_style st = col \<and> ss_width st = lw \<and> ss_alpha st = al)"
| "paint_with col lw al (FillText t a b ts) = (ts_fill ts = col \<and> ts_alpha ts = al)"

definition restrict_paint :: "(paint \<Rightarrow> bool) \<Rightarrow> rasteriser \<Rightarrow> rasteriser" where
  "restrict_paint P R k w h old i = (if P k then R k w h old i else old ! i)"


section \<open>Values for the examples\<close>

text \<open>The settings App.tsx starts with.\<close>

definition app_settings :: DrawingSettings where
  "app_settings = \<lparr>color = ''#FFFFFF'', width = 4, opacity = 1\<rparr>"

text \<open>
  A stand-in for the rasteriser that honours \<^verbatim>\<open>globalAlpha\<close>: it floods the surface with
  opaque white when the call's alpha is 1, and with half-transparent white otherwise.
\<close>

definition flood_raster :: rasteriser where
  "flood_raster k w h old i =
     (let a = (case k of Stroke p st \<Rightarrow> ss_alpha st
                       | StrokeRect a b c d st \<Rightarrow> ss_alpha st
                       | FillText t a b ts \<Rightarrow> ts_alpha ts)
      in if a = 1 then 0xFFFFFFFF else 0x80FFFFFF)"

text \<open>A mounted board with a surface of two pixels, one of them painted.\<close>

definition small_canvas :: Canvas where
  "small_canvas = \<lparr>cwidth = 2, cheight = 1, bitmap = [0xFF0000FF, 0], ctx = default_ctx\<rparr>"

definition small_board :: "ToolType \<Rightarrow> Board" where
  "small_board t =
     \<lparr>tool = t, settings = app_settings, isDrawing = False, startPos = None, snapshot = None,
      history = [], typingPos = None, canvas = Some small_canvas\<rparr>"

definition origin :: Point where
  "origin = \<lparr>pt_x = 0, pt_y = 0\<rparr>"

text \<open>A board after a pointer-down at the origin.\<close>

definition after_down :: "Board \<Rightarrow> Board" where
  "after_down s = (case startDrawing origin s of Inl e \<Rightarrow> s | Inr s' \<Rightarrow> s')"

definition small_session :: "ToolType \<Rightarrow> Board" where
  "small_session t = after_down (small_board t)"

text \<open>
  A board on which an eraser session has just ended and the line tool has been chosen:
  the context still composites with destination-out.
\<close>

definition stale_board :: Board where
  "stale_board = (stopDrawing (small_session Eraser))\<lparr>tool := Line\<rparr>"

text \<open>Settings with an opacity of one half, and a board on which text is being typed.\<close>

definition half_opacity :: DrawingSettings where
  "half_opacity = app_settings\<lparr>opacity := 1 / 2\<rparr>"

definition typing_board :: "DrawingSettings \<Rightarrow> Board" where
  "typing_board st = (small_board Text)\<lparr>settings := st, typingPos := Some origin\<rparr>"

text \<open>The board after twenty-five clears in a row.\<close>

definition cleared_25 :: Board where
  "cleared_25 =
     (small_board Pen)
       \<lparr>history := replicate 20 \<lparr>iwidth = 2, iheight = 1, idata = [0, 0]\<rparr>,
        canvas := Some (small_canvas\<lparr>bitmap := [0, 0]\<rparr>)\<rparr>"

section \<open>Helper facts\<close>

lemmas path_ops = beginPath_def moveTo_def lineTo_def closePath_def arc_def ellipse_def add_path_def

lemmas style_ops = set_strokeStyle_def set_lineWidth_def set_lineCap_def set_lineJoin_def
  setLineDash_def set_globalCompositeOperation_def set_font_def set_fillStyle_def
  set_textBaseline_def

lemmas paint_ops = stroke_def strokeRect_def fillText_def rasterise_def

lemmas small_defs = small_board_def small_canvas_def small_session_def after_down_def
  origin_def app_settings_def default_ctx_def

text \<open>Facts about the history stack.\<close>

lemma length_slice_last: "length (slice_last n xs) = min n (length xs)"
  by (simp add: slice_last_def)

lemma length_push_history: "length (push_history h d) \<le> 20"
  by (simp add: push_history_def length_slice_last)

lemma length_pop_history: "length (pop_history h) \<le> length h"
  by (simp add: pop_history_def)

lemma push_history_eq: "push_history h d = slice_last 20 (h @ [d])"
  by (simp add: push_history_def slice_last_def)

lemma slice_last_snoc: "slice_last 20 (slice_last 20 ys @ [d]) = slice_last 20 (ys @ [d])"
proof -
  have "length ys - (length ys - 20 + 19) + (length ys - 20) = length ys - 19" by arith
  then show ?thesis by (simp add: slice_last_def)
qed

lemma slice_last_all: "length xs \<le> n \<Longrightarrow> slice_last n xs = xs"
  by (simp add: slice_last_def)

lemma slice_last_append: "n \<le> length ys \<Longrightarrow> slice_last n (xs @ ys) = slice_last n ys"
  by (simp add: slice_last_def)

lemma trim_Nil_iff: "trim txt = [] \<longleftrightarrow> list_all is_space txt"
proof -
  have A: "(\<forall>ch\<in>set (dropWhile is_space txt). is_space ch) \<longleftrightarrow> dropWhile is_space txt = []"
  proof
    assume all: "\<forall>ch\<in>set (dropWhile is_space txt). is_space ch"
    show "dropWhile is_space txt = []"
    proof (rule ccontr)
      assume ne: "dropWhile is_space txt \<noteq> []"
      then have "\<not> is_space (hd (dropWhile is_space txt))" by (rule hd_dropWhile)
      moreover from ne have "hd (dropWhile is_space txt) \<in> set (dropWhile is_space txt)" by simp
      ultimately show False using all by blast
    qed
  next
    assume "dropWhile is_space txt = []"
    then show "\<forall>ch\<in>set (dropWhile is_space txt). is_space ch"
      by (auto dest: set_dropWhileD)
  qed
  have "trim txt = [] \<longleftrightarrow> (\<forall>ch\<in>set (dropWhile is_space txt). is_space ch)"
    by (auto simp add: trim_def dest: set_dropWhileD)
  also have "\<dots> \<longleftrightarrow> list_all is_space txt"
    unfolding A by (simp add: list_all_iff)
  finally show ?thesis .
qed

lemma getImageData_Inr: "getImageData c = Inr d \<Longrightarrow> d = full_copy c"
  by (auto simp: getImageData_def full_copy_def split: if_splits)

text \<open>What one event does to the history.\<close>

lemma step_history:
  assumes "step R s e = Inr s'" and "canvas s = Some c"
  shows "history s' =
           (if committing s e then push_history (history s) (full_copy c)
            else if e = UndoTrigger then pop_history (history s)
            else history s)"
proof (cases e)
  case (PointerDown p)
  with assms show ?thesis
    by (auto simp: startDrawing_def Let_def dest: getImageData_Inr split: if_splits sum.splits)
next
  case (TextComplete tx)
  with assms show ?thesis
    by (auto simp: handleTextComplete_def Let_def trim_Nil_iff dest: getImageData_Inr
             split: if_splits sum.splits option.splits)
next
  case ClearTrigger
  with assms show ?thesis
    by (auto simp: handleClear_def dest: getImageData_Inr split: sum.splits)
next
  case UndoTrigger
  with assms show ?thesis
    by (auto simp: handleUndo_def Let_def pop_history_def)
next
  case (PointerMove p)
  with assms show ?thesis
    by (auto simp: draw_def split: option.splits)
next
  case PointerUp
  with assms show ?thesis by (auto simp: stopDrawing_def)
next
  case (Resize w h)
  with assms show ?thesis by (auto simp: handleResize_def Let_def split: option.splits)
next
  case (SetTool t)
  with assms show ?thesis by auto
next
  case (SetSettings st)
  with assms show ?thesis by auto
qed

lemma step_canvas:
  assumes "step R s e = Inr s'" and "canvas s = Some c"
  shows "\<exists>c'. canvas s' = Some c'"
proof (cases e)
  case (PointerDown p)
  with assms show ?thesis
    by (auto simp: startDrawing_def Let_def split: if_splits sum.splits)
next
  case (TextComplete tx)
  with assms show ?thesis
    by (auto simp: handleTextComplete_def Let_def split: if_splits sum.splits option.splits)
next
  case ClearTrigger
  with assms show ?thesis
    by (auto simp: handleClear_def split: sum.splits)
next
  case UndoTrigger
  with assms show ?thesis
    by (auto simp: handleUndo_def Let_def)
next
  case (PointerMove p)
  with assms show ?thesis
    by (auto simp: draw_def split: option.splits)
next
  case PointerUp
  with assms show ?thesis by (auto simp: stopDrawing_def)
next
  case (Resize w h)
  with assms show ?thesis by (auto simp: handleResize_def Let_def split: option.splits)
next
  case (SetTool t)
  with assms show ?thesis by auto
next
  case (SetSettings st)
  with assms show ?thesis by auto
qed

lemma step_length_history:
  assumes "step R s e = Inr s'" and "canvas s = Some c" and "length (history s) \<le> 20"
  shows "length (history s') \<le> 20"
  using step_history [OF assms(1,2)] assms(3) length_push_history [of "history s" "full_copy c"]
    length_pop_history [of "history s"]
  by (auto split: if_splits)

lemma run_length_history:
  "run R s evs = Inr s' \<Longrightarrow> canvas s = Some c \<Longrightarrow> length (history s) \<le> 20
   \<Longrightarrow> length (history s') \<le> 20"
proof (induction evs arbitrary: s c)
  case Nil
  then show ?case by simp
next
  case (Cons e es)
  from Cons.prems(1) obtain s1 where s1: "step R s e = Inr s1" and r: "run R s1 es = Inr s'"
    by (auto split: sum.splits)
  from step_canvas [OF s1 Cons.prems(2)] obtain c1 where c1: "canvas s1 = Some c1" by blast
  from step_length_history [OF s1 Cons.prems(2,3)] have "length (history s1) \<le> 20" .
  from Cons.IH [OF r c1 this] show ?case .
qed

lemma run_history_log:
  "run R s evs = Inr s' \<Longrightarrow> canvas s = Some c \<Longrightarrow> UndoTrigger \<notin> set evs
   \<Longrightarrow> history s' = (if commit_log R s evs = [] then history s
                      else slice_last 20 (history s @ commit_log R s evs))"
proof (induction evs arbitrary: s c)
  case Nil
  then show ?case by simp
next
  case (Cons e es)
  from Cons.prems(1) obtain s1 where s1: "step R s e = Inr s1" and r: "run R s1 es = Inr s'"
    by (auto split: sum.splits)
  from step_canvas [OF s1 Cons.prems(2)] obtain c1 where c1: "canvas s1 = Some c1" by blast
  from Cons.prems(3) have ne: "e \<noteq> UndoTrigger" and nu: "UndoTrigger \<notin> set es" by auto
  have h1: "history s1 = (if committing s e then push_history (history s) (full_copy c) else history s)"
    using step_history [OF s1 Cons.prems(2)] ne by simp
  have log: "commit_log R s (e # es) = (if committing s e then [full_copy c] else []) @ commit_log R s1 es"
    using s1 Cons.prems(2) by simp
  have ih: "history s' = (if commit_log R s1 es = [] then history s1
                      else slice_last 20 (history s1 @ commit_log R s1 es))"
    by (rule Cons.IH [OF r c1 nu])
  show ?case
  proof (cases "committing s e")
    case False
    with h1 log ih show ?thesis by simp
  next
    case True
    have a: "slice_last 20 (slice_last 20 (history s @ [full_copy c]) @ ys)
           = slice_last 20 (history s @ [full_copy c] @ ys)" for ys
    proof (induction ys rule: rev_induct)
      case Nil
      show ?case by (simp add: slice_last_def)
    next
      case (snoc y ys)
      have "slice_last 20 (slice_last 20 (history s @ [full_copy c]) @ ys @ [y])
            = slice_last 20 (slice_last 20 (slice_last 20 (history s @ [full_copy c]) @ ys) @ [y])"
        using slice_last_snoc [of "slice_last 20 (history s @ [full_copy c]) @ ys" y] by simp
      also have "\<dots> = slice_last 20 (slice_last 20 (history s @ [full_copy c] @ ys) @ [y])"
        using snoc.IH by simp
      also have "\<dots> = slice_last 20 (history s @ [full_copy c] @ ys @ [y])"
        using slice_last_snoc [of "history s @ [full_copy c] @ ys" y] by simp
      finally show ?case .
    qed
    from True h1 log ih a [of "commit_log R s1 es"] show ?thesis
      by (simp add: push_history_eq)
  qed
qed

text \<open>Restoring a snapshot of the surface's own size replaces every pixel.\<close>

lemma putImageData_full:
  assumes "iwidth img = cwidth c" and "iheight img = cheight c"
    and "length (idata img) = cwidth c * cheight c"
  shows "putImageData img c = c\<lparr>bitmap := idata img\<rparr>"
proof -
  let ?w = "cwidth c" and ?h = "cheight c"
  let ?f = "\<lambda>i. if i mod ?w < iwidth img \<and> i div ?w < iheight img
                  then idata img ! (i div ?w * iwidth img + i mod ?w)
                  else bitmap c ! i"
  have "map ?f [0..<?w * ?h] = idata img"
  proof (rule nth_equalityI)
    show "length (map ?f [0..<?w * ?h]) = length (idata img)"
      using assms by simp
  next
    fix i assume "i < length (map ?f [0..<?w * ?h])"
    then have i: "i < ?w * ?h" by simp
    then have w: "0 < ?w" by (cases "?w") auto
    have m: "i mod ?w < ?w" using w by simp
    have d: "i div ?w < ?h" using i by (simp add: less_mult_imp_div_less mult.commute)
    show "map ?f [0..<?w * ?h] ! i = idata img ! i"
      using i m d assms by simp
  qed
  then show ?thesis by (simp add: putImageData_def)
qed

text \<open>What a session's events leave alone.\<close>

lemma shape_outline_frame:
  "cwidth (shape_outline R t st sp cp c) = cwidth c
   \<and> cheight (shape_outline R t st sp cp c) = cheight c
   \<and> globalCompositeOperation (ctx (shape_outline R t st sp cp c)) = ''source-over''"
  by (cases t)
     (simp_all add: shape_outline_def drawArrowHead_def Let_def path_ops style_ops paint_ops)

lemma putImageData_frame:
  "cwidth (putImageData img c) = cwidth c \<and> cheight (putImageData img c) = cheight c
   \<and> ctx (putImageData img c) = ctx c"
  by (simp add: putImageData_def)

lemma draw_frame:
  assumes "canvas s = Some c"
  shows "\<exists>c'. canvas (draw R p s) = Some c' \<and> cwidth c' = cwidth c \<and> cheight c' = cheight c
           \<and> history (draw R p s) = history s \<and> tool (draw R p s) = tool s
           \<and> snapshot (draw R p s) = snapshot s \<and> isDrawing (draw R p s) = isDrawing s
           \<and> startPos (draw R p s) = startPos s \<and> settings (draw R p s) = settings s"
  using assms shape_outline_frame putImageData_frame
  by (auto simp: draw_def path_ops paint_ops split: option.splits)

lemma stopDrawing_frame:
  assumes "canvas s = Some c"
  shows "\<exists>c'. canvas (stopDrawing s) = Some c' \<and> cwidth c' = cwidth c \<and> cheight c' = cheight c
           \<and> history (stopDrawing s) = history s"
  using assms by (auto simp: stopDrawing_def path_ops)

lemma redraw_step:
  assumes "redraw_only e" and "canvas s = Some c"
  shows "\<exists>s' c'. step R s e = Inr s' \<and> canvas s' = Some c' \<and> cwidth c' = cwidth c
           \<and> cheight c' = cheight c \<and> history s' = history s"
proof (cases e)
  case (PointerMove p)
  with draw_frame [OF assms(2), of R p] show ?thesis by auto
next
  case PointerUp
  with stopDrawing_frame [OF assms(2)] show ?thesis by auto
qed (use assms(1) in simp_all)

lemma redraw_run:
  "list_all redraw_only evs \<Longrightarrow> canvas s = Some c
   \<Longrightarrow> \<exists>s' c'. run R s evs = Inr s' \<and> canvas s' = Some c' \<and> cwidth c' = cwidth c
           \<and> cheight c' = cheight c \<and> history s' = history s"
proof (induction evs arbitrary: s c)
  case Nil
  then show ?case by simp
next
  case (Cons e es)
  from Cons.prems have e: "redraw_only e" and es: "list_all redraw_only es" by simp_all
  from redraw_step [OF e Cons.prems(2), of R] obtain s1 c1 where
    s1: "step R s e = Inr s1" "canvas s1 = Some c1" "cwidth c1 = cwidth c"
        "cheight c1 = cheight c" "history s1 = history s" by blast
  from Cons.IH [OF es s1(2)] s1 show ?case by auto
qed

lemma commit_step_dims:
  assumes "committing s a" and "step R s a = Inr s1" and "canvas s = Some c"
  shows "\<exists>c1. canvas s1 = Some c1 \<and> cwidth c1 = cwidth c \<and> cheight c1 = cheight c
           \<and> 0 < cwidth c \<and> 0 < cheight c"
proof (cases a)
  case (PointerDown p)
  with assms show ?thesis
    by (auto simp: startDrawing_def Let_def getImageData_def path_ops style_ops
             split: if_splits sum.splits)
next
  case (TextComplete tx)
  with assms show ?thesis
    by (auto simp: handleTextComplete_def Let_def getImageData_def style_ops paint_ops trim_Nil_iff
             split: if_splits sum.splits option.splits)
next
  case ClearTrigger
  with assms show ?thesis
    by (auto simp: handleClear_def getImageData_def clearRect_def split: if_splits sum.splits)
qed (use assms(1) in simp_all)

lemma pop_push_history: "pop_history (push_history h d) = slice_last 19 h"
  by (simp add: pop_history_def push_history_def)

lemma last_push_history: "last (push_history h d) = d"
  by (simp add: push_history_def)

text \<open>The setters that may ignore their argument, as assignments to one field.\<close>

lemma set_lineWidth_field:
  "set_lineWidth v c = c\<lparr>ctx := (ctx c)\<lparr>lineWidth := (if 0 < v then v else lineWidth (ctx c))\<rparr>\<rparr>"
  by (simp add: set_lineWidth_def)

lemma setLineDash_field:
  "setLineDash segs c =
     c\<lparr>ctx := (ctx c)\<lparr>lineDash := (if list_ex (\<lambda>v. v < 0) segs then lineDash (ctx c)
                                     else if odd (length segs) then segs @ segs else segs)\<rparr>\<rparr>"
  by (simp add: setLineDash_def)

lemmas style_fields = set_strokeStyle_def set_lineWidth_field set_lineCap_def set_lineJoin_def
  setLineDash_field set_globalCompositeOperation_def set_font_def set_fillStyle_def
  set_textBaseline_def


text \<open>The state a session starts in, and what the moves of a session keep.\<close>

lemma startDrawing_session:
  assumes "startDrawing a s0 = Inr s1" and "tool s0 \<noteq> Text" and "canvas s0 = Some c0"
  shows "\<exists>c1. canvas s1 = Some c1 \<and> cwidth c1 = cwidth c0 \<and> cheight c1 = cheight c0
           \<and> globalCompositeOperation (ctx c1) = session_mode (tool s0)
           \<and> snapshot s1 = Some (full_copy c0) \<and> tool s1 = tool s0 \<and> settings s1 = settings s0
           \<and> isDrawing s1 \<and> startPos s1 = Some a"
  using assms
  by (auto simp: startDrawing_def Let_def getImageData_def full_copy_def session_mode_def
        path_ops style_fields split: if_splits)


lemma draw_mode:
  assumes "canvas s = Some c" and "globalCompositeOperation (ctx c) = session_mode (tool s)"
  shows "\<exists>c'. canvas (draw R p s) = Some c'
           \<and> globalCompositeOperation (ctx c') = session_mode (tool s)"
  using assms shape_outline_frame [of R "tool s" "settings s" _ p]
  by (auto simp: draw_def session_mode_def path_ops paint_ops split: option.splits)

text \<open>
  Cutting the rasteriser down to the mode in force changes nothing: every paint call of a
  move is made in that mode.
\<close>

lemma restrict_mode_same: "paint_composite k = m \<Longrightarrow> restrict_mode m R k = R k"
  by (intro ext) (simp add: restrict_mode_def)

lemma shape_outline_restrict:
  "shape_outline (restrict_mode ''source-over'' R) t st sp cp d = shape_outline R t st sp cp d"
  by (cases t)
     (simp_all add: shape_outline_def drawArrowHead_def Let_def path_ops style_fields paint_ops
        stroke_state_def restrict_mode_same)

lemma draw_restrict:
  assumes "canvas s = Some c" and "globalCompositeOperation (ctx c) = session_mode (tool s)"
  shows "draw (restrict_mode (session_mode (tool s)) R) p s = draw R p s"
proof (cases "tool s = Pen \<or> tool s = Eraser")
  case True
  with assms show ?thesis
    by (auto simp: draw_def path_ops paint_ops stroke_state_def restrict_mode_same
          split: option.splits)
next
  case False
  then have "session_mode (tool s) = ''source-over''" by (simp add: session_mode_def)
  with False show ?thesis
    by (simp add: draw_def shape_outline_restrict split: option.splits)
qed

text \<open>
  The styles a preview is drawn with, and the alpha of the context: no handler assigns it,
  and a resize puts it back to its default.
\<close>

lemma shape_outline_styles:
  "strokeStyle (ctx (shape_outline R t st sp cp c)) = color st
   \<and> lineWidth (ctx (shape_outline R t st sp cp c))
       = (if 0 < width st then width st else lineWidth (ctx c))
   \<and> globalAlpha (ctx (shape_outline R t st sp cp c)) = globalAlpha (ctx c)"
  by (cases t)
     (simp_all add: shape_outline_def drawArrowHead_def Let_def path_ops style_fields paint_ops)

lemma step_alpha:
  assumes "step R s e = Inr s'" and "canvas s = Some c" and "globalAlpha (ctx c) = 1"
  shows "\<exists>c'. canvas s' = Some c' \<and> globalAlpha (ctx c') = 1"
proof (cases e)
  case (PointerDown p)
  with assms show ?thesis
    by (auto simp: startDrawing_def Let_def getImageData_def path_ops style_fields
          split: if_splits)
next
  case (PointerMove p)
  with assms shape_outline_styles [of R "tool s" "settings s" _ p] putImageData_frame
  show ?thesis
    by (auto simp: draw_def path_ops paint_ops split: option.splits)
next
  case PointerUp
  with assms show ?thesis by (auto simp: stopDrawing_def path_ops)
next
  case (TextComplete tx)
  with assms show ?thesis
    by (auto simp: handleTextComplete_def Let_def getImageData_def style_fields paint_ops
          split: if_splits option.splits)
next
  case ClearTrigger
  with assms show ?thesis
    by (auto simp: handleClear_def getImageData_def clearRect_def split: if_splits)
next
  case UndoTrigger
  with assms show ?thesis by (auto simp: handleUndo_def Let_def putImageData_def)
next
  case (Resize w h)
  with assms show ?thesis
    by (auto simp: handleResize_def Let_def set_width_def set_height_def new_canvas_def
          default_ctx_def putImageData_def split: option.splits)
next
  case (SetTool t)
  with assms show ?thesis by auto
next
  case (SetSettings st)
  with assms show ?thesis by auto
qed

lemma run_alpha:
  "run R s evs = Inr s' \<Longrightarrow> canvas s = Some c \<Longrightarrow> globalAlpha (ctx c) = 1
   \<Longrightarrow> \<exists>c'. canvas s' = Some c' \<and> globalAlpha (ctx c') = 1"
proof (induction evs arbitrary: s c)
  case Nil
  then show ?case by simp
next
  case (Cons e es)
  from Cons.prems(1) obtain s1 where s1: "step R s e = Inr s1" and r: "run R s1 es = Inr s'"
    by (auto split: sum.splits)
  from step_alpha [OF s1 Cons.prems(2,3)] obtain c1 where
    c1: "canvas s1 = Some c1" "globalAlpha (ctx c1) = 1" by blast
  from Cons.IH [OF r c1] show ?case .
qed

text \<open>
  A rasteriser cut down to the paint calls of one kind paints as the full one on a call of
  that kind; the outline of a preview makes no other call than with the settings' colour,
  the line width in force and the alpha of the context.
\<close>

lemma restrict_paint_same: "P k \<Longrightarrow> restrict_paint P R k = R k"
  by (intro ext) (simp add: restrict_paint_def)

lemma shape_outline_caps:
  "lineCap (ctx (shape_outline R t st sp cp d)) = lineCap (ctx d)
   \<and> lineJoin (ctx (shape_outline R t st sp cp d)) = lineJoin (ctx d)"
  by (cases t)
     (simp_all add: shape_outline_def drawArrowHead_def Let_def path_ops style_fields paint_ops)

lemma shape_outline_restrict_paint:
  "shape_outline
     (restrict_paint
        (paint_with (color st) (if 0 < width st then width st else lineWidth (ctx d))
           (globalAlpha (ctx d))) R) t st sp cp d
   = shape_outline R t st sp cp d"
  by (cases t)
     (simp_all add: shape_outline_def drawArrowHead_def Let_def path_ops style_fields paint_ops
        stroke_state_def restrict_paint_same)

text \<open>The one paint call of a rectangle preview and of a line preview.\<close>

lemma shape_outline_Rect:
  "bitmap (shape_outline R Rect st sp cp d)
   = map (R (StrokeRect (pt_x sp) (pt_y sp) (pt_x cp - pt_x sp) (pt_y cp - pt_y sp)
               \<lparr>ss_style = color st,
                ss_width = (if 0 < width st then width st else lineWidth (ctx d)),
                ss_cap = lineCap (ctx d), ss_join = lineJoin (ctx d), ss_dash = [],
                ss_composite = ''source-over'', ss_alpha = globalAlpha (ctx d)\<rparr>)
            (cwidth d) (cheight d) (bitmap d))
       [0..<cwidth d * cheight d]"
  by (simp add: shape_outline_def Let_def path_ops style_fields paint_ops stroke_state_def)

lemma shape_outline_Line:
  "bitmap (shape_outline R Line st sp cp d)
   = map (R (Stroke [MoveTo (pt_x sp) (pt_y sp), LineTo (pt_x cp) (pt_y cp)]
               \<lparr>ss_style = color st,
                ss_width = (if 0 < width st then width st else lineWidth (ctx d)),
                ss_cap = lineCap (ctx d), ss_join = lineJoin (ctx d), ss_dash = [],
                ss_composite = ''source-over'', ss_alpha = globalAlpha (ctx d)\<rparr>)
            (cwidth d) (cheight d) (bitmap d))
       [0..<cwidth d * cheight d]"
  by (simp add: shape_outline_def Let_def path_ops style_fields paint_ops stroke_state_def)

text \<open>
  The drawing state of a session begun with a positive width: what the pointer-down sets,
  every move keeps.
\<close>

lemma session_start:
  assumes "startDrawing p0 s0 = Inr s1" and "tool s0 \<noteq> Text" and "canvas s0 = Some c0"
    and "0 < width (settings s0)"
  shows "\<exists>c. canvas s1 = Some c \<and> strokeStyle (ctx c) = color (settings s0)
           \<and> lineWidth (ctx c) = width (settings s0)
           \<and> globalAlpha (ctx c) = globalAlpha (ctx c0)
           \<and> lineCap (ctx c) = ''round'' \<and> lineJoin (ctx c) = ''round''
           \<and> (tool s0 \<noteq> Dashed \<longrightarrow> lineDash (ctx c) = [])
           \<and> globalCompositeOperation (ctx c) = session_mode (tool s0)
           \<and> cwidth c = cwidth c0 \<and> cheight c = cheight c0
           \<and> settings s1 = settings s0 \<and> tool s1 = tool s0 \<and> isDrawing s1
           \<and> startPos s1 = Some p0 \<and> snapshot s1 = Some (full_copy c0)"
  using assms
  by (auto simp: startDrawing_def Let_def getImageData_def full_copy_def session_mode_def
        path_ops style_fields split: if_splits)

lemma session_move:
  assumes "canvas s = Some c" and "strokeStyle (ctx c) = color (settings s)"
    and "lineWidth (ctx c) = width (settings s)" and "0 < width (settings s)"
    and "lineCap (ctx c) = ''round''" and "lineJoin (ctx c) = ''round''"
    and "tool s = Pen \<or> tool s = Eraser \<longrightarrow> lineDash (ctx c) = []"
    and "globalCompositeOperation (ctx c) = session_mode (tool s)"
  shows "\<exists>c'. canvas (draw R p s) = Some c' \<and> strokeStyle (ctx c') = color (settings s)
           \<and> lineWidth (ctx c') = width (settings s)
           \<and> globalAlpha (ctx c') = globalAlpha (ctx c)
           \<and> lineCap (ctx c') = ''round'' \<and> lineJoin (ctx c') = ''round''
           \<and> (tool s = Pen \<or> tool s = Eraser \<longrightarrow> lineDash (ctx c') = [])
           \<and> globalCompositeOperation (ctx c') = session_mode (tool s)
           \<and> cwidth c' = cwidth c \<and> cheight c' = cheight c
           \<and> settings (draw R p s) = settings s \<and> tool (draw R p s) = tool s
           \<and> isDrawing (draw R p s) = isDrawing s
           \<and> startPos (draw R p s) = startPos s \<and> snapshot (draw R p s) = snapshot s"
proof (cases "tool s = Pen \<or> tool s = Eraser")
  case True
  with assms show ?thesis
    by (auto simp: draw_def path_ops paint_ops split: option.splits)
next
  case False
  then have m: "session_mode (tool s) = ''source-over''" by (simp add: session_mode_def)
  show ?thesis
    using assms False m
      shape_outline_styles [of R "tool s" "settings s" _ p]
      shape_outline_caps [of R "tool s" "settings s" _ p]
      shape_outline_frame [of R "tool s" "settings s" _ p]
      putImageData_frame
    by (auto simp: draw_def split: option.splits)
qed

lemma session_state:
  assumes "startDrawing p0 s0 = Inr s1" and "tool s0 \<noteq> Text" and "canvas s0 = Some c0"
    and "0 < width (settings s0)"
  shows "\<exists>c. canvas (fold (draw R) ps s1) = Some c
           \<and> strokeStyle (ctx c) = color (settings s0)
           \<and> lineWidth (ctx c) = width (settings s0)
           \<and> globalAlpha (ctx c) = globalAlpha (ctx c0)
           \<and> lineCap (ctx c) = ''round'' \<and> lineJoin (ctx c) = ''round''
           \<and> (tool s0 = Pen \<or> tool s0 = Eraser \<longrightarrow> lineDash (ctx c) = [])
           \<and> globalCompositeOperation (ctx c) = session_mode (tool s0)
           \<and> cwidth c = cwidth c0 \<and> cheight c = cheight c0
           \<and> settings (fold (draw R) ps s1) = settings s0
           \<and> tool (fold (draw R) ps s1) = tool s0
           \<and> isDrawing (fold (draw R) ps s1)
           \<and> startPos (fold (draw R) ps s1) = Some p0
           \<and> snapshot (fold (draw R) ps s1) = Some (full_copy c0)"
proof (induction ps rule: rev_induct)
  case Nil
  from session_start [OF assms] show ?case by auto
next
  case (snoc p ps)
  let ?s = "fold (draw R) ps s1"
  from snoc obtain c where
    c: "canvas ?s = Some c" "strokeStyle (ctx c) = color (settings s0)"
       "lineWidth (ctx c) = width (settings s0)" "globalAlpha (ctx c) = globalAlpha (ctx c0)"
       "lineCap (ctx c) = ''round''" "lineJoin (ctx c) = ''round''"
       "tool s0 = Pen \<or> tool s0 = Eraser \<longrightarrow> lineDash (ctx c) = []"
       "globalCompositeOperation (ctx c) = session_mode (tool s0)"
       "cwidth c = cwidth c0" "cheight c = cheight c0"
    and s: "settings ?s = settings s0" "tool ?s = tool s0" "isDrawing ?s"
       "startPos ?s = Some p0" "snapshot ?s = Some (full_copy c0)"
    by blast
  from session_move [of ?s c R p] c s assms(4)
  obtain c' where
    "canvas (draw R p ?s) = Some c'" "strokeStyle (ctx c') = color (settings ?s)"
    "lineWidth (ctx c') = width (settings ?s)" "globalAlpha (ctx c') = globalAlpha (ctx c)"
    "lineCap (ctx c') = ''round''" "lineJoin (ctx c') = ''round''"
    "tool ?s = Pen \<or> tool ?s = Eraser \<longrightarrow> lineDash (ctx c') = []"
    "globalCompositeOperation (ctx c') = session_mode (tool ?s)"
    "cwidth c' = cwidth c" "cheight c' = cheight c"
    "settings (draw R p ?s) = settings ?s" "tool (draw R p ?s) = tool ?s"
    "isDrawing (draw R p ?s) = isDrawing ?s"
    "startPos (draw R p ?s) = startPos ?s" "snapshot (draw R p ?s) = snapshot ?s"
    by auto
  with c s show ?case by simp
qed

lemma draw_restrict_paint:
  assumes "canvas s = Some c" and "strokeStyle (ctx c) = color (settings s)"
    and "lineWidth (ctx c) = width (settings s)" and "0 < width (settings s)"
  shows "draw (restrict_paint
                 (paint_with (color (settings s)) (width (settings s)) (globalAlpha (ctx c))) R)
           p s
         = draw R p s"
proof (cases "tool s = Pen \<or> tool s = Eraser")
  case True
  with assms show ?thesis
    by (auto simp: draw_def path_ops paint_ops stroke_state_def restrict_paint_same
          split: option.splits)
next
  case False
  have "shape_outline
          (restrict_paint
             (paint_with (color (settings s)) (width (settings s)) (globalAlpha (ctx c))) R)
          (tool s) (settings s) sp p (putImageData snap c)
        = shape_outline R (tool s) (settings s) sp p (putImageData snap c)" for sp snap
    using shape_outline_restrict_paint [of "settings s" "putImageData snap c" R "tool s" sp p]
      assms(4) putImageData_frame [of snap c]
    by simp
  with False assms(1) show ?thesis
    by (simp add: draw_def split: option.splits)
qed

text \<open>The index of a position inside the surface.\<close>

lemma index_in_surface:
  fixes x y w h :: nat
  assumes "x < w" and "y < h"
  shows "y * w + x < w * h"
proof -
  have "y * w + x < y * w + w" using assms(1) by simp
  also have "\<dots> = Suc y * w" by simp
  also have "\<dots> \<le> h * w" using assms(2) by (intro mult_le_mono1) simp
  finally show ?thesis by (simp add: mult.commute)
qed

text \<open>The indices of the two-pixel surface.\<close>

lemma upt_two: "[0..<2] = [0, 1]"
  by (simp add: eval_nat_numeral)

section \<open>C1: the history stack is bounded to 20 snapshots, oldest evicted first\<close>

text \<open>
  Claim C1. Every push leaves at most 20 snapshots on the history stack, and so does every
  run of events from a board that holds at most 20. Along a run without undo the stack is
  the last 20 of what it held followed by the snapshots the committing actions called for,
  in the order of the commits; once 20 or more commits have happened it holds exactly 20
  snapshots, those of the 20 most recent commits, oldest first.
\<close>

theorem history_bounded_fifo:
  assumes "run R s evs = Inr s'" and "canvas s = Some c" and "length (history s) \<le> 20"
  shows "length (push_history h d) \<le> 20
       \<and> length (history s') \<le> 20
       \<and> (UndoTrigger \<notin> set evs \<longrightarrow>
            history s' = slice_last 20 (history s @ commit_log R s evs))
       \<and> (UndoTrigger \<notin> set evs \<and> 20 \<le> length (commit_log R s evs) \<longrightarrow>
            length (history s') = 20 \<and> history s' = slice_last 20 (commit_log R s evs))"
proof -
  have A: "history s' = slice_last 20 (history s @ commit_log R s evs)" if "UndoTrigger \<notin> set evs"
    using run_history_log [OF assms(1,2) that] assms(3) by (simp add: slice_last_all)
  have B: "length (history s') = 20 \<and> history s' = slice_last 20 (commit_log R s evs)"
    if "UndoTrigger \<notin> set evs" and "20 \<le> length (commit_log R s evs)"
    using A [OF that(1)] that(2) by (simp add: slice_last_append length_slice_last)
  show ?thesis
    using length_push_history run_length_history [OF assms] A B by blast
qed

text \<open>The snapshots that twenty-five clears of the two-pixel board call for.\<close>

lemma clears_25_log:
  "commit_log flood_raster (small_board Pen) (replicate 25 ClearTrigger)
   = full_copy small_canvas # replicate 24 \<lparr>iwidth = 2, iheight = 1, idata = [0, 0]\<rparr>"
  by (simp add: eval_nat_numeral small_defs handleClear_def getImageData_def clearRect_def
        push_history_def slice_last_def full_copy_def)

text \<open>
  Twenty-five clears in a row: the painted surface that the first clear saved has been
  evicted, and the stack holds the 20 blank snapshots of clears 6 to 25.
\<close>

theorem history_bounded_fifo_witness:
  "run flood_raster (small_board Pen) (replicate 25 ClearTrigger) = Inr cleared_25
   \<and> canvas (small_board Pen) = Some small_canvas
   \<and> length (history (small_board Pen)) \<le> 20
   \<and> UndoTrigger \<notin> set (replicate 25 ClearTrigger)
   \<and> 20 \<le> length (commit_log flood_raster (small_board Pen) (replicate 25 ClearTrigger))
   \<and> length (history cleared_25) = 20
   \<and> history cleared_25
       = slice_last 20 (commit_log flood_raster (small_board Pen) (replicate 25 ClearTrigger))
   \<and> history cleared_25 = replicate 20 \<lparr>iwidth = 2, iheight = 1, idata = [0, 0]\<rparr>"
proof -
  have r: "run flood_raster (small_board Pen) (replicate 25 ClearTrigger) = Inr cleared_25"
    by (simp add: eval_nat_numeral small_defs cleared_25_def handleClear_def getImageData_def
          clearRect_def push_history_def slice_last_def)
  have c: "canvas (small_board Pen) = Some small_canvas"
    by (simp add: small_board_def)
  have l: "length (history (small_board Pen)) \<le> 20"
    by (simp add: small_board_def)
  have u: "UndoTrigger \<notin> set (replicate 25 ClearTrigger)"
    by simp
  have n: "20 \<le> length (commit_log flood_raster (small_board Pen) (replicate 25 ClearTrigger))"
    by (simp add: clears_25_log)
  have h: "history cleared_25 = replicate 20 \<lparr>iwidth = 2, iheight = 1, idata = [0, 0]\<rparr>"
    by (simp add: cleared_25_def)
  from history_bounded_fifo [OF r c l, of "[]" "full_copy small_canvas"] u n
  have "length (history cleared_25) = 20
      \<and> history cleared_25
          = slice_last 20 (commit_log flood_raster (small_board Pen) (replicate 25 ClearTrigger))"
    by blast
  with r c l u n h show ?thesis by blast
qed

section \<open>C2: undo restores the surface as it was before the last committing action\<close>

text \<open>
  Claim C2. Take a committing action on a well-formed surface, followed by any number of
  pointer moves and releases. The snapshot on top of the history is then the copy of the
  surface taken just before the action; undo writes exactly those pixels back, on a surface
  of unchanged size, and removes that one snapshot, the top one, from the stack.
\<close>

theorem undo_round_trip:
  assumes "canvas s = Some c" and "wf_canvas c"
    and "committing s a" and "step R s a = Inr s1" and "list_all redraw_only evs"
  shows "\<exists>s2 c2. run R s1 evs = Inr s2 \<and> canvas s2 = Some c2
           \<and> last (history s2) = full_copy c
           \<and> canvas (handleUndo s2) = Some (c2\<lparr>bitmap := bitmap c\<rparr>)
           \<and> cwidth c2 = cwidth c \<and> cheight c2 = cheight c
           \<and> history (handleUndo s2) = butlast (history s2)"
proof -
  from commit_step_dims [OF assms(3,4,1)] obtain c1 where
    c1: "canvas s1 = Some c1" "cwidth c1 = cwidth c" "cheight c1 = cheight c" by blast
  have h1: "history s1 = push_history (history s) (full_copy c)"
    using step_history [OF assms(4,1)] assms(3) by simp
  from redraw_run [OF assms(5) c1(1), of R] obtain s2 c2 where
    s2: "run R s1 evs = Inr s2" "canvas s2 = Some c2" "cwidth c2 = cwidth c1"
        "cheight c2 = cheight c1" "history s2 = history s1" by blast
  have ne: "history s2 \<noteq> []" using s2(5) h1 by (simp add: push_history_def)
  have l: "last (history s2) = full_copy c" using s2(5) h1 by (simp add: last_push_history)
  have "putImageData (full_copy c) c2 = c2\<lparr>bitmap := idata (full_copy c)\<rparr>"
    using assms(2) s2(3,4) c1(2,3)
    by (intro putImageData_full) (simp_all add: full_copy_def wf_canvas_def)
  then have u: "canvas (handleUndo s2) = Some (c2\<lparr>bitmap := bitmap c\<rparr>)"
    using ne l s2(2) by (simp add: handleUndo_def Let_def full_copy_def)
  have p: "history (handleUndo s2) = butlast (history s2)"
    using ne s2(2) by (simp add: handleUndo_def Let_def pop_history_def butlast_conv_take)
  from s2 c1 l u p show ?thesis by simp
qed

text \<open>
  A rectangle session on the two-pixel board: the move floods the surface, undo brings the
  two original pixels back.
\<close>

theorem undo_round_trip_witness:
  "canvas (small_board Rect) = Some small_canvas
   \<and> wf_canvas small_canvas
   \<and> committing (small_board Rect) (PointerDown origin)
   \<and> step flood_raster (small_board Rect) (PointerDown origin) = Inr (small_session Rect)
   \<and> list_all redraw_only [PointerMove \<lparr>pt_x = 1, pt_y = 0\<rparr>, PointerUp]
   \<and> (\<exists>s2 c2. run flood_raster (small_session Rect) [PointerMove \<lparr>pt_x = 1, pt_y = 0\<rparr>, PointerUp]
                  = Inr s2
          \<and> canvas s2 = Some c2
          \<and> bitmap c2 = [0xFFFFFFFF, 0xFFFFFFFF]
          \<and> last (history s2) = full_copy small_canvas
          \<and> canvas (handleUndo s2) = Some (c2\<lparr>bitmap := [0xFF0000FF, 0]\<rparr>)
          \<and> history (handleUndo s2) = butlast (history s2))"
proof -
  have c: "canvas (small_board Rect) = Some small_canvas" by (simp add: small_board_def)
  have w: "wf_canvas small_canvas" by (simp add: wf_canvas_def small_canvas_def)
  have k: "committing (small_board Rect) (PointerDown origin)" by (simp add: small_board_def)
  have s: "step flood_raster (small_board Rect) (PointerDown origin) = Inr (small_session Rect)"
    by (simp add: small_defs startDrawing_def getImageData_def Let_def)
  have e: "list_all redraw_only [PointerMove \<lparr>pt_x = 1, pt_y = 0\<rparr>, PointerUp]" by simp
  have b: "\<exists>c2. canvas s2 = Some c2 \<and> bitmap c2 = [0xFFFFFFFF, 0xFFFFFFFF]"
    if "run flood_raster (small_session Rect) [PointerMove \<lparr>pt_x = 1, pt_y = 0\<rparr>, PointerUp] = Inr s2"
    for s2
    using that
    by (auto simp add: small_defs startDrawing_def getImageData_def Let_def draw_def shape_outline_def
          stopDrawing_def putImageData_def path_ops style_ops paint_ops flood_raster_def stroke_state_def
          push_history_def slice_last_def eval_nat_numeral)
  from undo_round_trip [OF c w k s e] b c w k s e show ?thesis
    by (auto simp: small_canvas_def)
qed

section \<open>C3: when a snapshot is pushed\<close>

text \<open>
  Claim C3 says that a snapshot is pushed once for every committing user action and that
  nothing else pushes one. For the events of a mounted board this is lemma
  \<open>step_history\<close>. Mounting itself breaks it: the clear effect runs once after the first
  render, and leaves the copy of the blank 300 by 150 surface on the history stack before
  the user has done anything.
\<close>

theorem mount_pushes_snapshot:
  "mount t st = Inr ((initial t st)\<lparr>history := [full_copy (new_canvas 300 150)]\<rparr>)"
  by (simp add: mount_def initial_def handleClear_def getImageData_def new_canvas_def
        clearRect_def push_history_def slice_last_def full_copy_def)

section \<open>C4: undo on an empty history\<close>

text \<open>
  Claim C4. When the history stack is empty, an undo request leaves the whole board as it
  is, surface and empty stack included, and raises nothing.
\<close>

theorem undo_empty_noop:
  assumes "history s = []"
  shows "handleUndo s = s \<and> step R s UndoTrigger = Inr s"
  using assms by (simp add: handleUndo_def)

text \<open>Undo on the board as mounted in the examples, whose history is empty.\<close>

theorem undo_empty_noop_witness:
  "history (small_board Pen) = []
   \<and> handleUndo (small_board Pen) = small_board Pen
   \<and> step flood_raster (small_board Pen) UndoTrigger = Inr (small_board Pen)"
proof -
  have h: "history (small_board Pen) = []" by (simp add: small_board_def)
  from undo_empty_noop [OF h, of flood_raster] h show ?thesis by simp
qed

section \<open>C5: the preview is idempotent\<close>



section \<open>C6: the compositing mode of a session\<close>

text \<open>
  Claim C6. From the pointer-down on and after every move of the session, the context
  composites with destination-out when the session's tool is the eraser and with
  source-over for every other tool, whatever mode the context was in before the session.
  Every paint call of the session is made in that mode: a rasteriser that paints in no
  other mode gives the same board.
\<close>

theorem compositing_mode_of_session:
  assumes "startDrawing a s0 = Inr s1" and "tool s0 \<noteq> Text" and "canvas s0 = Some c0"
  shows "(\<exists>c. canvas (fold (draw R) ps s1) = Some c
            \<and> globalCompositeOperation (ctx c) = session_mode (tool s0))
       \<and> fold (draw (restrict_mode (session_mode (tool s0)) R)) ps s1 = fold (draw R) ps s1"
proof -
  have inv: "(\<exists>c'. canvas (fold (draw R) ps s) = Some c'
               \<and> globalCompositeOperation (ctx c') = session_mode (tool s))
           \<and> fold (draw (restrict_mode (session_mode (tool s)) R)) ps s = fold (draw R) ps s"
    if "canvas s = Some c" and "globalCompositeOperation (ctx c) = session_mode (tool s)"
    for s c
    using that
  proof (induction ps arbitrary: s c)
    case Nil
    then show ?case by simp
  next
    case (Cons p ps)
    from draw_mode [OF Cons.prems, of R p] obtain c1 where
      c1: "canvas (draw R p s) = Some c1"
          "globalCompositeOperation (ctx c1) = session_mode (tool s)" by blast
    from draw_frame [OF Cons.prems(1), of R p] have t: "tool (draw R p s) = tool s" by blast
    from Cons.IH [OF c1(1)] c1(2) t draw_restrict [OF Cons.prems, of R p]
    show ?case by simp
  qed
  from startDrawing_session [OF assms] obtain c1 where
    c1: "canvas s1 = Some c1" "globalCompositeOperation (ctx c1) = session_mode (tool s0)"
        "tool s1 = tool s0" by blast
  from inv [of s1 c1] c1 show ?thesis by simp
qed

text \<open>
  A line session begun while the context still composites with destination-out: from the
  pointer-down on the mode is source-over.
\<close>

theorem compositing_mode_of_session_witness:
  "startDrawing origin stale_board = Inr (after_down stale_board)
   \<and> tool stale_board \<noteq> Text
   \<and> (\<exists>c0. canvas stale_board = Some c0
         \<and> globalCompositeOperation (ctx c0) = ''destination-out'')
   \<and> (\<exists>c. canvas (fold (draw flood_raster) [\<lparr>pt_x = 1, pt_y = 0\<rparr>] (after_down stale_board))
            = Some c
         \<and> globalCompositeOperation (ctx c) = ''source-over'')
   \<and> fold (draw (restrict_mode ''source-over'' flood_raster)) [\<lparr>pt_x = 1, pt_y = 0\<rparr>]
         (after_down stale_board)
       = fold (draw flood_raster) [\<lparr>pt_x = 1, pt_y = 0\<rparr>] (after_down stale_board)"
proof -
  have s: "startDrawing origin stale_board = Inr (after_down stale_board)"
    by (simp add: stale_board_def stopDrawing_def small_defs startDrawing_def getImageData_def
          Let_def path_ops style_fields)
  have t: "tool stale_board \<noteq> Text"
    by (simp add: stale_board_def stopDrawing_def small_defs startDrawing_def getImageData_def
          Let_def)
  have c: "\<exists>c0. canvas stale_board = Some c0
         \<and> globalCompositeOperation (ctx c0) = ''destination-out''"
    by (simp add: stale_board_def stopDrawing_def small_defs startDrawing_def getImageData_def
          Let_def path_ops style_fields)
  then obtain c0 where c0: "canvas stale_board = Some c0" by blast
  have m: "session_mode (tool stale_board) = ''source-over''"
    by (simp add: session_mode_def stale_board_def)
  from compositing_mode_of_session [OF s t c0, of flood_raster "[\<lparr>pt_x = 1, pt_y = 0\<rparr>]"]
  have "(\<exists>c. canvas (fold (draw flood_raster) [\<lparr>pt_x = 1, pt_y = 0\<rparr>] (after_down stale_board))
            = Some c
         \<and> globalCompositeOperation (ctx c) = ''source-over'')
   \<and> fold (draw (restrict_mode ''source-over'' flood_raster)) [\<lparr>pt_x = 1, pt_y = 0\<rparr>]
         (after_down stale_board)
       = fold (draw flood_raster) [\<lparr>pt_x = 1, pt_y = 0\<rparr>] (after_down stale_board)"
    unfolding m .
  with s t c show ?thesis by blast
qed

section \<open>C7: committing a text entry\<close>

text \<open>
  Claim C7. Ending a text entry whose text is not blank, on a surface with pixels, pushes
  one snapshot of the surface as it is and then fills the text at the anchor, with font
  bold 32px sans-serif, the settings' colour, baseline top and source-over compositing.
  Ending it with empty or blank text only leaves text entry: history and surface stay as
  they are. The settings' width and opacity have no influence on either outcome.
\<close>

theorem text_commit:
  "(\<not> list_all is_space txt \<and> typingPos s = Some tp \<and> canvas s = Some c
      \<and> 0 < cwidth c \<and> 0 < cheight c \<longrightarrow>
      handleTextComplete R txt s
        = Inr (s\<lparr>typingPos := None,
                 history := push_history (history s) (full_copy c),
                 canvas := Some
                   (rasterise R
                      (FillText txt (pt_x tp) (pt_y tp)
                         \<lparr>ts_font = ''bold 32px sans-serif'', ts_fill = color (settings s),
                          ts_baseline = ''top'', ts_composite = ''source-over'',
                          ts_alpha = globalAlpha (ctx c)\<rparr>)
                      (c\<lparr>ctx := (ctx c)\<lparr>font := ''bold 32px sans-serif'',
                                       fillStyle := color (settings s),
                                       textBaseline := ''top'',
                                       globalCompositeOperation := ''source-over''\<rparr>\<rparr>))\<rparr>))
   \<and> (list_all is_space txt \<longrightarrow> handleTextComplete R txt s = Inr (s\<lparr>typingPos := None\<rparr>))
   \<and> handleTextComplete R txt (s\<lparr>settings := (settings s)\<lparr>width := w, opacity := a\<rparr>\<rparr>)
       = map_sum id (\<lambda>s'. s'\<lparr>settings := (settings s)\<lparr>width := w, opacity := a\<rparr>\<rparr>)
           (handleTextComplete R txt s)"
  by (auto simp: handleTextComplete_def Let_def trim_Nil_iff getImageData_def full_copy_def
        style_fields paint_ops text_state_def split: option.splits)

text \<open>
  The letter A typed at the origin of the two-pixel board is committed; a text made of a
  space, a no-break space, an ideographic space and U+FEFF is discarded.
\<close>

theorem text_commit_witness:
  "\<not> list_all is_space [0x41] \<and> typingPos (typing_board app_settings) = Some origin
   \<and> canvas (typing_board app_settings) = Some small_canvas
   \<and> 0 < cwidth small_canvas \<and> 0 < cheight small_canvas
   \<and> handleTextComplete flood_raster [0x41] (typing_board app_settings)
       = Inr ((small_board Text)
                \<lparr>history := [full_copy small_canvas],
                 canvas := Some
                   \<lparr>cwidth = 2, cheight = 1, bitmap = [0xFFFFFFFF, 0xFFFFFFFF],
                    ctx = default_ctx\<lparr>font := ''bold 32px sans-serif'',
                                       fillStyle := ''#FFFFFF'',
                                       textBaseline := ''top''\<rparr>\<rparr>\<rparr>)
   \<and> list_all is_space [0x20, 0xA0, 0x3000, 0xFEFF]
   \<and> handleTextComplete flood_raster [0x20, 0xA0, 0x3000, 0xFEFF] (typing_board app_settings)
       = Inr (small_board Text)"
proof -
  have a: "\<not> list_all is_space [0x41]" by (simp add: is_space_def)
  have b: "typingPos (typing_board app_settings) = Some origin" by (simp add: typing_board_def)
  have c: "canvas (typing_board app_settings) = Some small_canvas"
    by (simp add: typing_board_def small_board_def)
  have d: "0 < cwidth small_canvas \<and> 0 < cheight small_canvas" by (simp add: small_canvas_def)
  have e: "list_all is_space [0x20, 0xA0, 0x3000, 0xFEFF]" by (simp add: is_space_def)
  from text_commit [of "[0x41]" "typing_board app_settings" origin small_canvas flood_raster 0 0]
    a b c d
  have 1: "handleTextComplete flood_raster [0x41] (typing_board app_settings)
       = Inr ((small_board Text)
                \<lparr>history := [full_copy small_canvas],
                 canvas := Some
                   \<lparr>cwidth = 2, cheight = 1, bitmap = [0xFFFFFFFF, 0xFFFFFFFF],
                    ctx = default_ctx\<lparr>font := ''bold 32px sans-serif'',
                                       fillStyle := ''#FFFFFF'',
                                       textBaseline := ''top''\<rparr>\<rparr>\<rparr>)"
    by (simp add: typing_board_def small_defs rasterise_def flood_raster_def push_history_def
          slice_last_def eval_nat_numeral)
  from text_commit [of "[0x20, 0xA0, 0x3000, 0xFEFF]" "typing_board app_settings" origin
      small_canvas flood_raster 0 0] e
  have 2: "handleTextComplete flood_raster [0x20, 0xA0, 0x3000, 0xFEFF]
             (typing_board app_settings)
           = Inr (small_board Text)"
    by (simp add: typing_board_def small_defs)
  from a b c d e 1 2 show ?thesis by blast
qed

section \<open>C8: a resize keeps the content\<close>

text \<open>
  Claim C8. After a resize to \<open>w\<close> by \<open>h\<close> the surface has the new dimensions; every
  position that lay inside the old surface shows the pixel it showed before, every other
  position is transparent; what lay outside the new bounds is gone. Nothing else of the
  board changes.
\<close>

theorem resize_preserves_content:
  assumes "canvas s = Some c"
  shows "\<exists>c'. handleResize w h s = s\<lparr>canvas := Some c'\<rparr>
           \<and> cwidth c' = w \<and> cheight c' = h \<and> length (bitmap c') = w * h
           \<and> (\<forall>x<w. \<forall>y<h. bitmap c' ! (y * w + x)
                  = (if x < cwidth c \<and> y < cheight c then bitmap c ! (y * cwidth c + x) else 0))"
proof (cases "0 < cwidth c \<and> 0 < cheight c")
  case False
  then have r: "handleResize w h s = s\<lparr>canvas := Some (new_canvas w h)\<rparr>"
    using assms by (auto simp add: handleResize_def Let_def set_width_def set_height_def new_canvas_def)
  have "bitmap (new_canvas w h) ! (y * w + x)
          = (if x < cwidth c \<and> y < cheight c then bitmap c ! (y * cwidth c + x) else 0)"
    if "x < w" and "y < h" for x y
    using index_in_surface [OF that] False by (auto simp: new_canvas_def)
  with r show ?thesis by (auto simp: new_canvas_def)
next
  case True
  let ?c' = "putImageData (full_copy c) (new_canvas w h)"
  from True have r: "handleResize w h s = s\<lparr>canvas := Some ?c'\<rparr>"
    using assms
    by (simp add: handleResize_def Let_def set_width_def set_height_def new_canvas_def
          getImageData_def full_copy_def)
  have px: "bitmap ?c' ! (y * w + x)
          = (if x < cwidth c \<and> y < cheight c then bitmap c ! (y * cwidth c + x) else 0)"
    if "x < w" and "y < h" for x y
  proof -
    have i: "y * w + x < w * h" by (rule index_in_surface [OF that])
    have m: "(y * w + x) mod w = x" using that(1) by simp
    have d: "(y * w + x) div w = y" using that(1) by simp
    show ?thesis using i m d by (simp add: putImageData_def new_canvas_def full_copy_def)
  qed
  have "cwidth ?c' = w \<and> cheight ?c' = h \<and> length (bitmap ?c') = w * h"
    by (simp add: putImageData_def new_canvas_def)
  with r px show ?thesis by blast
qed

text \<open>
  The two-pixel board, 2 by 1, resized to 1 by 2: the left pixel stays, the right one is
  clipped, the new row is transparent.
\<close>

theorem resize_preserves_content_witness:
  "canvas (small_board Pen) = Some small_canvas
   \<and> (\<exists>c'. handleResize 1 2 (small_board Pen) = (small_board Pen)\<lparr>canvas := Some c'\<rparr>
         \<and> cwidth c' = 1 \<and> cheight c' = 2 \<and> length (bitmap c') = 2
         \<and> bitmap c' ! 0 = 0xFF0000FF \<and> bitmap c' ! 1 = 0)"
proof -
  have c: "canvas (small_board Pen) = Some small_canvas" by (simp add: small_board_def)
  from resize_preserves_content [OF c, of 1 2] obtain c' where
    r: "handleResize 1 2 (small_board Pen) = (small_board Pen)\<lparr>canvas := Some c'\<rparr>"
       "cwidth c' = 1" "cheight c' = 2" "length (bitmap c') = 1 * 2"
    and px: "\<forall>x<1. \<forall>y<2. bitmap c' ! (y * 1 + x)
               = (if x < cwidth small_canvas \<and> y < cheight small_canvas
                  then bitmap small_canvas ! (y * cwidth small_canvas + x) else 0)"
    by blast
  from px have "bitmap c' ! (0 * 1 + 0)
               = (if (0::nat) < cwidth small_canvas \<and> (0::nat) < cheight small_canvas
                  then bitmap small_canvas ! (0 * cwidth small_canvas + 0) else 0)"
    by (simp del: One_nat_def)
  then have p0: "bitmap c' ! 0 = 0xFF0000FF" by (simp add: small_canvas_def)
  from px have "bitmap c' ! (1 * 1 + 0)
               = (if (0::nat) < cwidth small_canvas \<and> (1::nat) < cheight small_canvas
                  then bitmap small_canvas ! (1 * cwidth small_canvas + 0) else 0)"
    by (simp del: One_nat_def)
  then have p1: "bitmap c' ! 1 = 0" by (simp add: small_canvas_def)
  from c r p0 p1 show ?thesis by auto
qed

section \<open>C9: which settings reach the surface\<close>

text \<open>
  Claim C9, amended. In a session begun with a positive width on a context of alpha 1,
  every paint call of every move is made with the settings' colour, the settings' width and
  alpha 1: a rasteriser that paints on no other call gives the same board. A pen or eraser
  move strokes the path so far with exactly that state, round caps and joins and the mode
  of the session; the preview of a rectangle or of a line paints that one outline, with that
  state, over the pixels the surface had before the session. A text commit fills the text
  with the settings' colour at the alpha of the context. The opacity is not read by any
  handler: a pointer-down, a move and the end of a text entry do the same to the board for
  every value of the opacity. No handler assigns \<^verbatim>\<open>globalAlpha\<close>: through every run of
  events the context paints with its default alpha 1.
\<close>

theorem settings_applied:
  "(startDrawing p0 s0 = Inr s1 \<and> tool s0 \<noteq> Text \<and> canvas s0 = Some c0
      \<and> 0 < width (settings s0) \<and> globalAlpha (ctx c0) = 1 \<longrightarrow>
      fold (draw (restrict_paint
                    (paint_with (color (settings s0)) (width (settings s0)) 1) R)) ps s1
        = fold (draw R) ps s1
      \<and> (tool s0 = Pen \<or> tool s0 = Eraser \<longrightarrow>
           (\<exists>c2. canvas (fold (draw R) ps s1) = Some c2
              \<and> draw R p (fold (draw R) ps s1)
                  = (fold (draw R) ps s1)
                      \<lparr>canvas := Some
                         (rasterise R
                            (Stroke (path (ctx c2) @ [LineTo (pt_x p) (pt_y p)])
                               \<lparr>ss_style = color (settings s0),
                                ss_width = width (settings s0),
                                ss_cap = ''round'', ss_join = ''round'', ss_dash = [],
                                ss_composite = session_mode (tool s0), ss_alpha = 1\<rparr>)
                            (lineTo (pt_x p) (pt_y p) c2))\<rparr>))
      \<and> (tool s0 = Rect \<and> wf_canvas c0 \<longrightarrow>
           (\<exists>c3. canvas (draw R p (fold (draw R) ps s1)) = Some c3
              \<and> bitmap c3
                  = map (R (StrokeRect (pt_x p0) (pt_y p0) (pt_x p - pt_x p0) (pt_y p - pt_y p0)
                              \<lparr>ss_style = color (settings s0),
                               ss_width = width (settings s0),
                               ss_cap = ''round'', ss_join = ''round'', ss_dash = [],
                               ss_composite = ''source-over'', ss_alpha = 1\<rparr>)
                           (cwidth c0) (cheight c0) (bitmap c0))
                      [0..<cwidth c0 * cheight c0]))
      \<and> (tool s0 = Line \<and> wf_canvas c0 \<longrightarrow>
           (\<exists>c3. canvas (draw R p (fold (draw R) ps s1)) = Some c3
              \<and> bitmap c3
                  = map (R (Stroke [MoveTo (pt_x p0) (pt_y p0), LineTo (pt_x p) (pt_y p)]
                              \<lparr>ss_style = color (settings s0),
                               ss_width = width (settings s0),
                               ss_cap = ''round'', ss_join = ''round'', ss_dash = [],
                               ss_composite = ''source-over'', ss_alpha = 1\<rparr>)
                           (cwidth c0) (cheight c0) (bitmap c0))
                      [0..<cwidth c0 * cheight c0])))
   \<and> (\<not> list_all is_space txt \<and> typingPos s = Some tp \<and> canvas s = Some c
        \<and> 0 < cwidth c \<and> 0 < cheight c \<longrightarrow>
        (\<exists>s3. handleTextComplete R txt s = Inr s3
           \<and> canvas s3 = Some
               (rasterise R
                  (FillText txt (pt_x tp) (pt_y tp)
                     \<lparr>ts_font = ''bold 32px sans-serif'', ts_fill = color (settings s),
                      ts_baseline = ''top'', ts_composite = ''source-over'',
                      ts_alpha = globalAlpha (ctx c)\<rparr>)
                  (c\<lparr>ctx := (ctx c)\<lparr>font := ''bold 32px sans-serif'',
                                   fillStyle := color (settings s),
                                   textBaseline := ''top'',
                                   globalCompositeOperation := ''source-over''\<rparr>\<rparr>))))
   \<and> startDrawing p (s\<lparr>settings := (settings s)\<lparr>opacity := a\<rparr>\<rparr>)
       = map_sum id (\<lambda>s'. s'\<lparr>settings := (settings s)\<lparr>opacity := a\<rparr>\<rparr>) (startDrawing p s)
   \<and> draw R p (s\<lparr>settings := (settings s)\<lparr>opacity := a\<rparr>\<rparr>)
       = (draw R p s)\<lparr>settings := (settings s)\<lparr>opacity := a\<rparr>\<rparr>
   \<and> handleTextComplete R txt (s\<lparr>settings := (settings s)\<lparr>opacity := a\<rparr>\<rparr>)
       = map_sum id (\<lambda>s'. s'\<lparr>settings := (settings s)\<lparr>opacity := a\<rparr>\<rparr>)
           (handleTextComplete R txt s)
   \<and> (run R s evs = Inr s2 \<and> canvas s = Some c \<and> globalAlpha (ctx c) = 1 \<longrightarrow>
        (\<exists>c2. canvas s2 = Some c2 \<and> globalAlpha (ctx c2) = 1))"
proof -
  let ?P = "paint_with (color (settings s0)) (width (settings s0)) 1"
  let ?st = "\<lambda>m. \<lparr>ss_style = color (settings s0), ss_width = width (settings s0),
                   ss_cap = ''round'', ss_join = ''round'', ss_dash = [],
                   ss_composite = m, ss_alpha = 1\<rparr>"
  have session:
    "fold (draw (restrict_paint ?P R)) ps s1 = fold (draw R) ps s1
      \<and> (tool s0 = Pen \<or> tool s0 = Eraser \<longrightarrow>
           (\<exists>c2. canvas (fold (draw R) ps s1) = Some c2
              \<and> draw R p (fold (draw R) ps s1)
                  = (fold (draw R) ps s1)
                      \<lparr>canvas := Some
                         (rasterise R
                            (Stroke (path (ctx c2) @ [LineTo (pt_x p) (pt_y p)])
                               (?st (session_mode (tool s0))))
                            (lineTo (pt_x p) (pt_y p) c2))\<rparr>))
      \<and> (tool s0 = Rect \<and> wf_canvas c0 \<longrightarrow>
           (\<exists>c3. canvas (draw R p (fold (draw R) ps s1)) = Some c3
              \<and> bitmap c3
                  = map (R (StrokeRect (pt_x p0) (pt_y p0) (pt_x p - pt_x p0) (pt_y p - pt_y p0)
                              (?st ''source-over''))
                           (cwidth c0) (cheight c0) (bitmap c0))
                      [0..<cwidth c0 * cheight c0]))
      \<and> (tool s0 = Line \<and> wf_canvas c0 \<longrightarrow>
           (\<exists>c3. canvas (draw R p (fold (draw R) ps s1)) = Some c3
              \<and> bitmap c3
                  = map (R (Stroke [MoveTo (pt_x p0) (pt_y p0), LineTo (pt_x p) (pt_y p)]
                              (?st ''source-over''))
                           (cwidth c0) (cheight c0) (bitmap c0))
                      [0..<cwidth c0 * cheight c0]))"
    if h: "startDrawing p0 s0 = Inr s1" "tool s0 \<noteq> Text" "canvas s0 = Some c0"
          "0 < width (settings s0)" and al: "globalAlpha (ctx c0) = 1"
  proof -
    note st = session_state [OF h]
    have r: "fold (draw (restrict_paint ?P R)) qs s1 = fold (draw R) qs s1" for qs
    proof (induction qs rule: rev_induct)
      case Nil
      show ?case by simp
    next
      case (snoc q qs)
      from st [of R qs] al obtain c where
        c: "canvas (fold (draw R) qs s1) = Some c" "strokeStyle (ctx c) = color (settings s0)"
           "lineWidth (ctx c) = width (settings s0)" "globalAlpha (ctx c) = 1"
           "settings (fold (draw R) qs s1) = settings s0"
        by auto
      from draw_restrict_paint [of "fold (draw R) qs s1" c R q] c h(4)
      have "draw (restrict_paint ?P R) q (fold (draw R) qs s1) = draw R q (fold (draw R) qs s1)"
        by simp
      with snoc show ?case by simp
    qed
    let ?s2 = "fold (draw R) ps s1"
    from st [of R ps] al obtain c2 where
      c2: "canvas ?s2 = Some c2" "strokeStyle (ctx c2) = color (settings s0)"
          "lineWidth (ctx c2) = width (settings s0)" "globalAlpha (ctx c2) = 1"
          "lineCap (ctx c2) = ''round''" "lineJoin (ctx c2) = ''round''"
          "tool s0 = Pen \<or> tool s0 = Eraser \<longrightarrow> lineDash (ctx c2) = []"
          "globalCompositeOperation (ctx c2) = session_mode (tool s0)"
          "cwidth c2 = cwidth c0" "cheight c2 = cheight c0"
      and s2: "settings ?s2 = settings s0" "tool ?s2 = tool s0" "isDrawing ?s2"
          "startPos ?s2 = Some p0" "snapshot ?s2 = Some (full_copy c0)"
      by auto
    have pen: "draw R p ?s2
                 = ?s2\<lparr>canvas := Some
                         (rasterise R
                            (Stroke (path (ctx c2) @ [LineTo (pt_x p) (pt_y p)])
                               (?st (session_mode (tool s0))))
                            (lineTo (pt_x p) (pt_y p) c2))\<rparr>"
      if "tool s0 = Pen \<or> tool s0 = Eraser"
      using that c2 s2
      by (auto simp: draw_def path_ops paint_ops stroke_state_def)
    have put: "putImageData (full_copy c0) c2 = c2\<lparr>bitmap := bitmap c0\<rparr>" if "wf_canvas c0"
      using putImageData_full [of "full_copy c0" c2] that c2(9,10)
      by (simp add: full_copy_def wf_canvas_def)
    have rect: "\<exists>c3. canvas (draw R p ?s2) = Some c3
              \<and> bitmap c3
                  = map (R (StrokeRect (pt_x p0) (pt_y p0) (pt_x p - pt_x p0) (pt_y p - pt_y p0)
                              (?st ''source-over''))
                           (cwidth c0) (cheight c0) (bitmap c0))
                      [0..<cwidth c0 * cheight c0]"
      if "tool s0 = Rect" and w: "wf_canvas c0"
      using that c2 s2 h(4) put [OF w]
        shape_outline_Rect [of R "settings s0" p0 p "c2\<lparr>bitmap := bitmap c0\<rparr>"]
      by (simp add: draw_def)
    have line: "\<exists>c3. canvas (draw R p ?s2) = Some c3
              \<and> bitmap c3
                  = map (R (Stroke [MoveTo (pt_x p0) (pt_y p0), LineTo (pt_x p) (pt_y p)]
                              (?st ''source-over''))
                           (cwidth c0) (cheight c0) (bitmap c0))
                      [0..<cwidth c0 * cheight c0]"
      if "tool s0 = Line" and w: "wf_canvas c0"
      using that c2 s2 h(4) put [OF w]
        shape_outline_Line [of R "settings s0" p0 p "c2\<lparr>bitmap := bitmap c0\<rparr>"]
      by (simp add: draw_def)
    from r [of ps] c2(1) pen rect line show ?thesis by blast
  qed
  have tcommit: "\<exists>s3. handleTextComplete R txt s = Inr s3
           \<and> canvas s3 = Some
               (rasterise R
                  (FillText txt (pt_x tp) (pt_y tp)
                     \<lparr>ts_font = ''bold 32px sans-serif'', ts_fill = color (settings s),
                      ts_baseline = ''top'', ts_composite = ''source-over'',
                      ts_alpha = globalAlpha (ctx c)\<rparr>)
                  (c\<lparr>ctx := (ctx c)\<lparr>font := ''bold 32px sans-serif'',
                                   fillStyle := color (settings s),
                                   textBaseline := ''top'',
                                   globalCompositeOperation := ''source-over''\<rparr>\<rparr>))"
    if "\<not> list_all is_space txt" and "typingPos s = Some tp" and "canvas s = Some c"
      and "0 < cwidth c" and "0 < cheight c"
    using that
    by (auto simp: handleTextComplete_def Let_def trim_Nil_iff getImageData_def style_fields
          paint_ops text_state_def)
  have C: "startDrawing p (s\<lparr>settings := (settings s)\<lparr>opacity := a\<rparr>\<rparr>)
       = map_sum id (\<lambda>s'. s'\<lparr>settings := (settings s)\<lparr>opacity := a\<rparr>\<rparr>) (startDrawing p s)"
    by (simp add: startDrawing_def Let_def getImageData_def split: option.splits)
  have so: "shape_outline R t (st\<lparr>opacity := a\<rparr>) sp cp d = shape_outline R t st sp cp d"
    for t st d sp cp
    by (simp add: shape_outline_def Let_def)
  have D: "draw R p (s\<lparr>settings := (settings s)\<lparr>opacity := a\<rparr>\<rparr>)
       = (draw R p s)\<lparr>settings := (settings s)\<lparr>opacity := a\<rparr>\<rparr>"
    by (simp add: draw_def so split: option.splits)
  have E: "handleTextComplete R txt (s\<lparr>settings := (settings s)\<lparr>opacity := a\<rparr>\<rparr>)
       = map_sum id (\<lambda>s'. s'\<lparr>settings := (settings s)\<lparr>opacity := a\<rparr>\<rparr>)
           (handleTextComplete R txt s)"
    by (simp add: handleTextComplete_def Let_def getImageData_def split: option.splits)
  from session tcommit C D E run_alpha [of R s evs s2 c]
  show ?thesis by blast
qed

text \<open>
  A pen session, a rectangle session and a text commit on the two-pixel board, with the
  settings App.tsx starts with.
\<close>

theorem settings_applied_witness:
  "startDrawing origin (small_board Pen) = Inr (small_session Pen)
   \<and> tool (small_board Pen) \<noteq> Text
   \<and> canvas (small_board Pen) = Some small_canvas
   \<and> 0 < width (settings (small_board Pen))
   \<and> globalAlpha (ctx small_canvas) = 1
   \<and> fold (draw (restrict_paint (paint_with ''#FFFFFF'' 4 1) flood_raster))
         [\<lparr>pt_x = 1, pt_y = 0\<rparr>] (small_session Pen)
       = fold (draw flood_raster) [\<lparr>pt_x = 1, pt_y = 0\<rparr>] (small_session Pen)
   \<and> startDrawing origin (small_board Rect) = Inr (small_session Rect)
   \<and> tool (small_board Rect) = Rect
   \<and> wf_canvas small_canvas
   \<and> (\<exists>c3. canvas (draw flood_raster \<lparr>pt_x = 1, pt_y = 0\<rparr> (small_session Rect)) = Some c3
         \<and> bitmap c3 = [0xFFFFFFFF, 0xFFFFFFFF])
   \<and> \<not> list_all is_space [0x41]
   \<and> typingPos (typing_board app_settings) = Some origin
   \<and> canvas (typing_board app_settings) = Some small_canvas
   \<and> (\<exists>s3. handleTextComplete flood_raster [0x41] (typing_board app_settings) = Inr s3
         \<and> map_option bitmap (canvas s3) = Some [0xFFFFFFFF, 0xFFFFFFFF])
   \<and> run flood_raster (small_board Pen) [PointerDown origin] = Inr (small_session Pen)
   \<and> (\<exists>c2. canvas (small_session Pen) = Some c2 \<and> globalAlpha (ctx c2) = 1)"
proof -
  let ?q = "\<lparr>pt_x = 1, pt_y = 0\<rparr>"
  have sp: "startDrawing origin (small_board Pen) = Inr (small_session Pen)"
    by (simp add: small_defs startDrawing_def getImageData_def Let_def)
  have sr: "startDrawing origin (small_board Rect) = Inr (small_session Rect)"
    by (simp add: small_defs startDrawing_def getImageData_def Let_def)
  have tp: "tool (small_board Pen) \<noteq> Text" and tr: "tool (small_board Rect) = Rect"
    by (simp_all add: small_board_def)
  have cp: "canvas (small_board Pen) = Some small_canvas"
    and cr: "canvas (small_board Rect) = Some small_canvas"
    by (simp_all add: small_board_def)
  have wp: "0 < width (settings (small_board Pen))"
    and wr: "0 < width (settings (small_board Rect))"
    by (simp_all add: small_board_def app_settings_def)
  have g: "globalAlpha (ctx small_canvas) = 1" by (simp add: small_canvas_def default_ctx_def)
  have wf: "wf_canvas small_canvas" by (simp add: wf_canvas_def small_canvas_def)
  have cs: "color (settings (small_board Pen)) = ''#FFFFFF''"
    "width (settings (small_board Pen)) = 4"
    by (simp_all add: small_board_def app_settings_def)
  have a: "\<not> list_all is_space [0x41]" by (simp add: is_space_def)
  have ty: "typingPos (typing_board app_settings) = Some origin"
    by (simp add: typing_board_def)
  have ct: "canvas (typing_board app_settings) = Some small_canvas"
    by (simp add: typing_board_def small_board_def)
  have d: "0 < cwidth small_canvas" "0 < cheight small_canvas"
    by (simp_all add: small_canvas_def)
  have r: "run flood_raster (small_board Pen) [PointerDown origin] = Inr (small_session Pen)"
    using sp by simp
  note pen = settings_applied [of origin "small_board Pen" "small_session Pen" small_canvas
      flood_raster "[?q]" ?q "[0x41]" "small_board Pen" origin small_canvas 1
      "[PointerDown origin]" "small_session Pen"]
  note rect = settings_applied [of origin "small_board Rect" "small_session Rect" small_canvas
      flood_raster "[]" ?q "[0x41]" "typing_board app_settings" origin small_canvas 1
      "[]" "typing_board app_settings"]
  from pen sp tp cp wp g
  have "fold (draw (restrict_paint
                      (paint_with (color (settings (small_board Pen)))
                         (width (settings (small_board Pen))) 1) flood_raster))
          [?q] (small_session Pen)
        = fold (draw flood_raster) [?q] (small_session Pen)"
    by blast
  then have 1: "fold (draw (restrict_paint (paint_with ''#FFFFFF'' 4 1) flood_raster))
                  [?q] (small_session Pen)
                = fold (draw flood_raster) [?q] (small_session Pen)"
    unfolding cs .
  from rect sr tr cr wr g wf
  have "\<exists>c3. canvas (draw flood_raster ?q (fold (draw flood_raster) [] (small_session Rect)))
                = Some c3
          \<and> bitmap c3
              = map (flood_raster
                       (StrokeRect (pt_x origin) (pt_y origin) (pt_x ?q - pt_x origin)
                          (pt_y ?q - pt_y origin)
                          \<lparr>ss_style = color (settings (small_board Rect)),
                           ss_width = width (settings (small_board Rect)),
                           ss_cap = ''round'', ss_join = ''round'', ss_dash = [],
                           ss_composite = ''source-over'', ss_alpha = 1\<rparr>)
                       (cwidth small_canvas) (cheight small_canvas) (bitmap small_canvas))
                  [0..<cwidth small_canvas * cheight small_canvas]"
    by simp
  then have 2: "\<exists>c3. canvas (draw flood_raster ?q (small_session Rect)) = Some c3
         \<and> bitmap c3 = [0xFFFFFFFF, 0xFFFFFFFF]"
    by (simp add: small_canvas_def flood_raster_def upt_two)
  from rect a ty ct d
  have "\<exists>s3. handleTextComplete flood_raster [0x41] (typing_board app_settings) = Inr s3
           \<and> canvas s3 = Some
               (rasterise flood_raster
                  (FillText [0x41] (pt_x origin) (pt_y origin)
                     \<lparr>ts_font = ''bold 32px sans-serif'',
                      ts_fill = color (settings (typing_board app_settings)),
                      ts_baseline = ''top'', ts_composite = ''source-over'',
                      ts_alpha = globalAlpha (ctx small_canvas)\<rparr>)
                  (small_canvas\<lparr>ctx := (ctx small_canvas)\<lparr>font := ''bold 32px sans-serif'',
                                   fillStyle := color (settings (typing_board app_settings)),
                                   textBaseline := ''top'',
                                   globalCompositeOperation := ''source-over''\<rparr>\<rparr>))"
    by blast
  then obtain s3 where
    s3: "handleTextComplete flood_raster [0x41] (typing_board app_settings) = Inr s3"
    and b3: "map_option bitmap (canvas s3) = Some [0xFFFFFFFF, 0xFFFFFFFF]"
    by (auto simp add: rasterise_def flood_raster_def small_canvas_def default_ctx_def upt_two)
  from pen r cp g have 4: "\<exists>c2. canvas (small_session Pen) = Some c2 \<and> globalAlpha (ctx c2) = 1"
    by blast
  from sp tp cp wp g 1 sr tr wf 2 a ty ct s3 b3 r 4 show ?thesis by blast
qed

text \<open>
  Claim C9 as stated fails. With an opacity of one half, and a rasteriser that honours
  \<^verbatim>\<open>globalAlpha\<close>, a text commit, a pen stroke and a rectangle all come out fully opaque:
  they are painted with the alpha 1 of the context.
\<close>

theorem opacity_ignored_counterexample:
  "opacity half_opacity = 1 / 2
   \<and> handleTextComplete flood_raster [0x41] (typing_board half_opacity)
       = Inr ((small_board Text)
                \<lparr>settings := half_opacity,
                 history := [full_copy small_canvas],
                 canvas := Some
                   \<lparr>cwidth = 2, cheight = 1, bitmap = [0xFFFFFFFF, 0xFFFFFFFF],
                    ctx = default_ctx\<lparr>font := ''bold 32px sans-serif'',
                                       fillStyle := ''#FFFFFF'',
                                       textBaseline := ''top''\<rparr>\<rparr>\<rparr>)
   \<and> map_option bitmap
        (canvas (draw flood_raster \<lparr>pt_x = 1, pt_y = 0\<rparr>
                   (after_down ((small_board Pen)\<lparr>settings := half_opacity\<rparr>))))
       = Some [0xFFFFFFFF, 0xFFFFFFFF]
   \<and> map_option bitmap
        (canvas (draw flood_raster \<lparr>pt_x = 1, pt_y = 0\<rparr>
                   (after_down ((small_board Rect)\<lparr>settings := half_opacity\<rparr>))))
       = Some [0xFFFFFFFF, 0xFFFFFFFF]"
proof -
  have o: "opacity half_opacity = 1 / 2"
    by (simp add: half_opacity_def app_settings_def)
  have t: "handleTextComplete flood_raster [0x41] (typing_board half_opacity)
       = Inr ((small_board Text)
                \<lparr>settings := half_opacity,
                 history := [full_copy small_canvas],
                 canvas := Some
                   \<lparr>cwidth = 2, cheight = 1, bitmap = [0xFFFFFFFF, 0xFFFFFFFF],
                    ctx = default_ctx\<lparr>font := ''bold 32px sans-serif'',
                                       fillStyle := ''#FFFFFF'',
                                       textBaseline := ''top''\<rparr>\<rparr>\<rparr>)"
    by (simp add: half_opacity_def typing_board_def small_defs handleTextComplete_def trim_def
        is_space_def getImageData_def full_copy_def Let_def
        style_fields paint_ops text_state_def flood_raster_def push_history_def slice_last_def
        upt_two)
  have p: "map_option bitmap
        (canvas (draw flood_raster \<lparr>pt_x = 1, pt_y = 0\<rparr>
                   (after_down ((small_board Pen)\<lparr>settings := half_opacity\<rparr>))))
       = Some [0xFFFFFFFF, 0xFFFFFFFF]"
    by (simp add: half_opacity_def small_defs
        getImageData_def Let_def startDrawing_def draw_def
        path_ops style_fields paint_ops stroke_state_def
        flood_raster_def push_history_def slice_last_def upt_two)
  have r: "map_option bitmap
        (canvas (draw flood_raster \<lparr>pt_x = 1, pt_y = 0\<rparr>
                   (after_down ((small_board Rect)\<lparr>settings := half_opacity\<rparr>))))
       = Some [0xFFFFFFFF, 0xFFFFFFFF]"
    by (simp add: half_opacity_def small_defs
        getImageData_def Let_def startDrawing_def draw_def
        shape_outline_def putImageData_def path_ops style_fields paint_ops stroke_state_def
        flood_raster_def push_history_def slice_last_def upt_two)
  from o t p r show ?thesis by blast
qed

section \<open>C10: pointer events outside a session\<close>

text \<open>
  Claim C10. When the drawing flag is false and no anchor is recorded, a pointer move and
  a pointer release each leave the whole board unchanged: surface, history and session
  state.
\<close>

theorem idle_pointer_noop:
  assumes "\<not> isDrawing s" and "startPos s = None"
  shows "draw R p s = s \<and> stopDrawing s = s
       \<and> step R s (PointerMove p) = Inr s \<and> step R s PointerUp = Inr s"
  using assms by (simp add: draw_def stopDrawing_def)

text \<open>A move and a release on an idle board.\<close>

theorem idle_pointer_noop_witness:
  "\<not> isDrawing (small_board Pen) \<and> startPos (small_board Pen) = None
   \<and> draw flood_raster \<lparr>pt_x = 1, pt_y = 0\<rparr> (small_board Pen) = small_board Pen
   \<and> stopDrawing (small_board Pen) = small_board Pen"
proof -
  have a: "\<not> isDrawing (small_board Pen)" by (simp add: small_board_def)
  have b: "startPos (small_board Pen) = None" by (simp add: small_board_def)
  from idle_pointer_noop [OF a b, of flood_raster "\<lparr>pt_x = 1, pt_y = 0\<rparr>"] a b
  show ?thesis by simp
qed

end
